theory Spec2Isabelle
  imports Complex_Main
begin

section \<open>A shopping-cart server: scan toggle, clear and checkout\<close>

text \<open>
  The program is \<^verbatim>\<open>src/index.js\<close>: an Express application over two in-memory
  objects, the product catalog \<^verbatim>\<open>products\<close> and the cart store \<^verbatim>\<open>carts\<close>.
  Each route handler is embedded as a function from the request's inputs and the state
  before the request to the response and the state after it. The second source file is
  a variant of the same server (it logs to the console, repeats the normalized tag in the
  404 body and listens on a port); its handlers make the same state transitions.

  How the embedding reads the runtime.
  \<^item> A JavaScript string is the list of its UTF-16 code units, each a natural number.
    The literals of the source are ASCII and are written \<open>str ''...''\<close>.
  \<^item> \<^verbatim>\<open>tag_id\<close> of a request body is any JSON value, or absent. \<^verbatim>\<open>cart_id\<close> is a
    string or absent, and a path parameter is a string.
  \<^item> \<^verbatim>\<open>carts\<close> is a plain object: \<^verbatim>\<open>carts[key]\<close> finds the object's own properties,
    then those of its prototype, and the assignment \<^verbatim>\<open>carts["__proto__"] = v\<close> replaces
    the prototype. The state holds the own properties and the prototype.
  \<^item> \<^verbatim>\<open>products\<close> is a plain object too, read only as \<^verbatim>\<open>products[normalizedTag]\<close>. A
    normalized tag holds no letter a to z and every inherited property name holds one
    (lemma \<open>normalized_tag_not_inherited\<close>), so the lookup finds own properties only and
    is a lookup in a map.
  \<^item> An exception that a handler throws (a \<^verbatim>\<open>TypeError\<close>) is the outcome \<open>Throws\<close>;
    Express answers it with status 500.
  \<^item> Prices and totals are JavaScript numbers holding small integers (the catalog's
    prices are at most 80 and a cart holds each product at most once), so they are
    modelled by \<open>int\<close>.
  \<^item> Every reading of the clock (\<^verbatim>\<open>new Date()\<close>, \<^verbatim>\<open>Date.now()\<close>) is an argument of
    the handler that makes it, one argument for each place of the source that reads it.
    An instant is a number of milliseconds; the ISO rendering of an instant, a string
    that is never empty, is not modelled.
\<close>

subsection \<open>Data\<close>

type_synonym instant = nat

type_synonym jsstring = "nat list"

definition str :: "string \<Rightarrow> jsstring" where
  "str cs = map of_char cs"

text \<open>A JSON value of a request body, as far as the handlers look at it: a number is
  the value it parses to, objects and arrays are told apart from the rest only.\<close>

datatype json = JAbsent | JNull | JBool bool | JNum real | JStr jsstring | JObject

record product =
  name :: jsstring
  price :: int
  category :: jsstring

record item =
  tag_id :: jsstring
  name_i :: jsstring
  price_i :: int
  category_i :: jsstring
  scannedAt :: instant

record cart =
  id_c :: jsstring
  items_c :: "item list"
  total_c :: int
  createdAt :: instant

record receipt =
  receiptId :: jsstring
  items_r :: "item list"
  total_r :: int
  itemCount :: nat
  checkoutTime :: instant

text \<open>The state of the process: the catalog, the own properties of \<^verbatim>\<open>carts\<close>, and the
  prototype of \<^verbatim>\<open>carts\<close>: \<open>None\<close> while it is \<^verbatim>\<open>Object.prototype\<close>, \<open>Some c\<close> once an
  assignment to \<^verbatim>\<open>carts["__proto__"]\<close> has put the cart object \<open>c\<close> there.\<close>

record state =
  products :: "jsstring \<rightharpoonup> product"
  carts :: "jsstring \<rightharpoonup> cart"
  proto :: "cart option"

text \<open>The object literal bound to \<^verbatim>\<open>products\<close> (lines 30 to 39), in the order written.\<close>

definition catalog :: "(jsstring \<times> product) list" where
  "catalog =
    [(str ''A1B2C3D4'', \<lparr>name = str ''Milk (1L)'', price = 40, category = str ''Dairy''\<rparr>),
     (str ''11223344'', \<lparr>name = str ''Bread (White)'', price = 30, category = str ''Bakery''\<rparr>),
     (str ''55667788'', \<lparr>name = str ''Rice (1kg)'', price = 65, category = str ''Grains''\<rparr>),
     (str ''AABBCCDD'', \<lparr>name = str ''Eggs (6 pcs)'', price = 48, category = str ''Dairy''\<rparr>),
     (str ''99887766'', \<lparr>name = str ''Butter (100g)'', price = 55, category = str ''Dairy''\<rparr>),
     (str ''DEADBEEF'',
        \<lparr>name = str ''Apple Juice (500ml)'', price = 80, category = str ''Beverages''\<rparr>),
     (str ''CAFEBABE'', \<lparr>name = str ''Biscuits (200g)'', price = 25, category = str ''Snacks''\<rparr>),
     (str ''F00DCAFE'', \<lparr>name = str ''Chips (150g)'', price = 35, category = str ''Snacks''\<rparr>)]"

text \<open>The state when the module has been loaded: the catalog, and \<^verbatim>\<open>carts = {}\<close>.\<close>

definition init_state :: state where
  "init_state = \<lparr>products = map_of catalog, carts = Map.empty, proto = None\<rparr>"

subsection \<open>Responses\<close>

text \<open>An error response: \<^verbatim>\<open>res.status(n).json({ error: msg })\<close>.\<close>

record error_response =
  status :: nat
  error :: string

text \<open>The three error responses of the source (lines 69, 76 and 161, 135), under the
  names the specification gives them.\<close>

definition InvalidInput :: error_response where
  "InvalidInput = \<lparr>status = 400, error = ''tag_id is required''\<rparr>"

definition UnknownProduct :: error_response where
  "UnknownProduct = \<lparr>status = 404, error = ''Unknown product''\<rparr>"

definition EmptyCart :: error_response where
  "EmptyCart = \<lparr>status = 400, error = ''Cart is empty''\<rparr>"

text \<open>What a handler does with a request: it answers with a JSON body, it answers with
  an error response, or it throws.\<close>

datatype 'a outcome = Ok 'a | Fail error_response | Throws

datatype action = Added | Removed

record scan_response =
  action :: action
  resp_product :: jsstring
  resp_price :: int
  cart_total :: int
  cart_items :: nat
  resp_cart :: cart

subsection \<open>Strings and arrays of the runtime\<close>

text \<open>\<^verbatim>\<open>String.prototype.toUpperCase\<close>. On a string of ASCII code units the letters a to z
  move down by 32 and nothing else changes. On any other string the result is given by
  the case mapping of Unicode, which is not part of the repository: it is the parameter
  \<open>U\<close>, the upper-casing of the runtime on strings that are not ASCII (it may change the
  length: the sharp s becomes two letters). No upper-cased string holds a letter a to z,
  which \<open>map upper_unit\<close> over the result of \<open>U\<close> records.\<close>

definition upper_unit :: "nat \<Rightarrow> nat" where
  "upper_unit c = (if 97 \<le> c \<and> c \<le> 122 then c - 32 else c)"

definition toUpperCase :: "(jsstring \<Rightarrow> jsstring) \<Rightarrow> jsstring \<Rightarrow> jsstring" where
  "toUpperCase U s = map upper_unit (if \<forall>c\<in>set s. c < 128 then s else U s)"

text \<open>The class \<^verbatim>\<open>\s\<close> of a regular expression without the \<^verbatim>\<open>u\<close> flag: tab, line feed,
  vertical tab, form feed, carriage return, space, no-break space (U+00A0), U+1680,
  U+2000 to U+200A, the line and paragraph separators U+2028 and U+2029, U+202F, U+205F,
  U+3000 and the byte order mark U+FEFF.\<close>

definition is_space :: "nat \<Rightarrow> bool" where
  "is_space c =
    (c \<in> {9, 10, 11, 12, 13, 32, 160, 5760, 8232, 8233, 8239, 8287, 12288, 65279} \<or>
     (8192 \<le> c \<and> c \<le> 8202))"

text \<open>\<^verbatim>\<open>s.replace(/\s+/g, "")\<close>: every maximal run of white space is matched once and
  replaced by the empty string; the search goes on after the run.\<close>

function replace_spaces :: "jsstring \<Rightarrow> jsstring" where
  "replace_spaces [] = []"
| "replace_spaces (c # cs) =
    (if is_space c then replace_spaces (dropWhile is_space cs) else c # replace_spaces cs)"
  by pat_completeness auto
termination
  by (relation "measure length") (auto simp: length_dropWhile_le less_Suc_eq_le)

text \<open>The expression bound to \<^verbatim>\<open>normalizedTag\<close> in both handlers (lines 72 and 157).\<close>

definition normalizeTag :: "(jsstring \<Rightarrow> jsstring) \<Rightarrow> jsstring \<Rightarrow> jsstring" where
  "normalizeTag U t = replace_spaces (toUpperCase U t)"

text \<open>\<^verbatim>\<open>Array.prototype.findIndex\<close>: the index of the first element that satisfies the
  predicate, and \<open>-1\<close> when there is none.\<close>

fun findIndexFrom :: "('a \<Rightarrow> bool) \<Rightarrow> 'a list \<Rightarrow> nat \<Rightarrow> int" where
  "findIndexFrom P [] k = - 1"
| "findIndexFrom P (x # xs) k = (if P x then int k else findIndexFrom P xs (Suc k))"

definition findIndex :: "('a \<Rightarrow> bool) \<Rightarrow> 'a list \<Rightarrow> int" where
  "findIndex P xs = findIndexFrom P xs 0"

text \<open>\<^verbatim>\<open>xs.splice(i, 1)\<close> for an index \<open>i \<ge> 0\<close>: the element at \<open>i\<close> is removed; nothing is
  removed when \<open>i\<close> is past the end.\<close>

definition splice1 :: "nat \<Rightarrow> 'a list \<Rightarrow> 'a list" where
  "splice1 i xs = take i xs @ drop (Suc i) xs"

text \<open>The decimal digits of a number, as a template literal prints it.\<close>

fun decimal :: "nat \<Rightarrow> jsstring" where
  "decimal n = (if n < 10 then [48 + n] else decimal (n div 10) @ [48 + n mod 10])"

text \<open>Truthiness of a JSON value: \<^verbatim>\<open>!v\<close> holds of an absent field, \<^verbatim>\<open>null\<close>, \<^verbatim>\<open>false\<close>,
  zero and the empty string.\<close>

fun json_truthy :: "json \<Rightarrow> bool" where
  "json_truthy JAbsent = False"
| "json_truthy JNull = False"
| "json_truthy (JBool b) = b"
| "json_truthy (JNum x) = (x \<noteq> 0)"
| "json_truthy (JStr s) = (s \<noteq> [])"
| "json_truthy JObject = True"

subsection \<open>The object \<open>carts\<close>\<close>

text \<open>The value of \<^verbatim>\<open>carts[key]\<close>: \<^verbatim>\<open>undefined\<close>, a cart object, or another value, of
  which only the truthiness is kept (a function, an array and a string that is not empty
  are truthy; the number 0 is not).\<close>

datatype jsval = Undefined | CartV cart | Other bool

fun truthy :: "jsval \<Rightarrow> bool" where
  "truthy Undefined = False"
| "truthy (CartV c) = True"
| "truthy (Other b) = b"

text \<open>The names of the properties of \<^verbatim>\<open>Object.prototype\<close> that hold a function.
  \<^verbatim>\<open>__proto__\<close>, its one accessor, is treated on its own.\<close>

definition object_prototype_keys :: "jsstring list" where
  "object_prototype_keys =
    map str [''constructor'', ''__defineGetter__'', ''__defineSetter__'', ''hasOwnProperty'',
             ''__lookupGetter__'', ''__lookupSetter__'', ''isPrototypeOf'',
             ''propertyIsEnumerable'', ''toString'', ''valueOf'', ''toLocaleString'']"

definition inherited :: "jsstring \<Rightarrow> jsval" where
  "inherited key = (if key \<in> set object_prototype_keys then Other True else Undefined)"

text \<open>\<^verbatim>\<open>carts[key]\<close>. The getter of \<^verbatim>\<open>__proto__\<close> gives the prototype. Any other key is
  looked up among the own properties, then among the four fields of the cart that is the
  prototype, if one has been put there, and last in \<^verbatim>\<open>Object.prototype\<close>.\<close>

definition carts_get :: "state \<Rightarrow> jsstring \<Rightarrow> jsval" where
  "carts_get s key =
    (if key = str ''__proto__'' then
       (case proto s of None \<Rightarrow> Other True | Some c \<Rightarrow> CartV c)
     else
       (case carts s key of
          Some c \<Rightarrow> CartV c
        | None \<Rightarrow>
            (case proto s of
               None \<Rightarrow> inherited key
             | Some c \<Rightarrow>
                 if key = str ''id'' then Other (id_c c \<noteq> [])
                 else if key = str ''items'' then Other True
                 else if key = str ''total'' then Other (total_c c \<noteq> 0)
                 else if key = str ''createdAt'' then Other True
                 else inherited key)))"

text \<open>\<^verbatim>\<open>carts[key] = c\<close> for a cart object \<open>c\<close>. The setter of \<^verbatim>\<open>__proto__\<close> makes \<open>c\<close> the
  prototype; any other key becomes, or stays, an own property. The same function records
  the mutation in place of the cart object that \<^verbatim>\<open>carts[key]\<close> holds.\<close>

definition carts_set :: "jsstring \<Rightarrow> cart \<Rightarrow> state \<Rightarrow> state" where
  "carts_set key c s =
    (if key = str ''__proto__'' then s\<lparr>proto := Some c\<rparr>
     else s\<lparr>carts := (carts s)(key \<mapsto> c)\<rparr>)"

subsection \<open>The handlers\<close>

text \<open>\<^verbatim>\<open>getCart\<close> (lines 43 to 53): when \<^verbatim>\<open>carts[cartId]\<close> is not truthy, a new empty cart
  is assigned to it; the result is \<^verbatim>\<open>carts[cartId]\<close>, read after that. \<open>t_create\<close> is
  the clock read for \<^verbatim>\<open>createdAt\<close>.\<close>

definition getCart :: "instant \<Rightarrow> jsstring \<Rightarrow> state \<Rightarrow> jsval \<times> state" where
  "getCart t_create cartId s =
    (let s1 = (if \<not> truthy (carts_get s cartId)
               then carts_set cartId
                      \<lparr>id_c = cartId, items_c = [], total_c = 0, createdAt = t_create\<rparr> s
               else s)
     in (carts_get s1 cartId, s1))"

text \<open>\<^verbatim>\<open>POST /api/scan\<close> (lines 65 to 111). \<^verbatim>\<open>cart_id\<close> defaults to \<^verbatim>\<open>"default"\<close>.
  A \<^verbatim>\<open>tag_id\<close> that is truthy and not a string has no method \<^verbatim>\<open>toUpperCase\<close>, and the
  call of line 72 throws. When \<^verbatim>\<open>getCart\<close> gives a value that is not a cart object, its
  \<^verbatim>\<open>items\<close> is \<^verbatim>\<open>undefined\<close> and the call of \<^verbatim>\<open>findIndex\<close> throws. The cart object is
  mutated in place, so the store holds the updated cart, which is also the cart of the
  response.\<close>

definition scan ::
  "(jsstring \<Rightarrow> jsstring) \<Rightarrow> instant \<Rightarrow> instant \<Rightarrow> json \<Rightarrow> jsstring option \<Rightarrow> state
     \<Rightarrow> scan_response outcome \<times> state"
where
  "scan U t_create t_scan tag cart_id_opt s =
    (let cart_id = (case cart_id_opt of None \<Rightarrow> str ''default'' | Some c \<Rightarrow> c) in
     if \<not> json_truthy tag then (Fail \<lparr>status = 400, error = ''tag_id is required''\<rparr>, s)
     else
       case tag of
         JStr tg \<Rightarrow>
           (let normalizedTag = normalizeTag U tg in
            case products s normalizedTag of
              None \<Rightarrow> (Fail \<lparr>status = 404, error = ''Unknown product''\<rparr>, s)
            | Some product \<Rightarrow>
        (let (v, s1) = getCart t_create cart_id s in
          case v of
            CartV cart \<Rightarrow>
              (let existingIndex =
                     findIndex (\<lambda>it. tag_id it = normalizedTag) (items_c cart)
               in
                 if existingIndex \<noteq> - 1 then
                   (let cart' = cart\<lparr>items_c := splice1 (nat existingIndex) (items_c cart),
                                     total_c := total_c cart - price product\<rparr>
                    in (Ok \<lparr>action = Removed, resp_product = name product,
                            resp_price = price product, cart_total = total_c cart',
                            cart_items = length (items_c cart'), resp_cart = cart'\<rparr>,
                        carts_set cart_id cart' s1))
                 else
                   (let cart' = cart\<lparr>items_c := items_c cart @
                                       [\<lparr>tag_id = normalizedTag, name_i = name product,
                                         price_i = price product,
                                         category_i = category product,
                                         scannedAt = t_scan\<rparr>],
                                     total_c := total_c cart + price product\<rparr>
                    in (Ok \<lparr>action = Added, resp_product = name product,
                            resp_price = price product, cart_total = total_c cart',
                            cart_items = length (items_c cart'), resp_cart = cart'\<rparr>,
                        carts_set cart_id cart' s1)))
          | _ \<Rightarrow> (Throws, s1)))
       | _ \<Rightarrow> (Throws, s))"

text \<open>\<^verbatim>\<open>GET /api/cart/:cartId\<close> (lines 113 to 116): the value that \<^verbatim>\<open>getCart\<close> gives.\<close>

definition cart_retrieval :: "instant \<Rightarrow> jsstring \<Rightarrow> state \<Rightarrow> jsval \<times> state" where
  "cart_retrieval t_create cartId s = getCart t_create cartId s"

text \<open>\<^verbatim>\<open>POST /api/cart/:cartId/clear\<close> (lines 118 to 129): a new cart object is assigned
  to \<^verbatim>\<open>carts[cartId]\<close>; the response carries \<^verbatim>\<open>carts[cartId]\<close>, read after the
  assignment.\<close>

definition clear :: "instant \<Rightarrow> jsstring \<Rightarrow> state \<Rightarrow> jsval \<times> state" where
  "clear t_create cartId s =
    (let s1 = carts_set cartId
                \<lparr>id_c = cartId, items_c = [], total_c = 0, createdAt = t_create\<rparr> s
     in (carts_get s1 cartId, s1))"

text \<open>\<^verbatim>\<open>POST /api/cart/:cartId/checkout\<close> (lines 131 to 154). The clock is read by
  \<^verbatim>\<open>getCart\<close> (\<open>t_create\<close>), for the receipt's id (\<open>t_id\<close>), for \<^verbatim>\<open>checkoutTime\<close>
  (\<open>t_checkout\<close>) and for the \<^verbatim>\<open>createdAt\<close> of the cart that replaces the old one
  (\<open>t_reset\<close>). On a value that is not a cart object, \<^verbatim>\<open>cart.items.length\<close> throws.\<close>

definition checkout ::
  "instant \<Rightarrow> instant \<Rightarrow> instant \<Rightarrow> instant \<Rightarrow> jsstring \<Rightarrow> state \<Rightarrow> receipt outcome \<times> state"
where
  "checkout t_create t_id t_checkout t_reset cartId s =
    (let (v, s1) = getCart t_create cartId s in
     case v of
       CartV cart \<Rightarrow>
         if length (items_c cart) = 0
         then (Fail \<lparr>status = 400, error = ''Cart is empty''\<rparr>, s1)
         else
           (let receipt = \<lparr>receiptId = str ''RCP-'' @ decimal t_id, items_r = items_c cart,
                            total_r = total_c cart, itemCount = length (items_c cart),
                            checkoutTime = t_checkout\<rparr>
            in (Ok receipt,
                carts_set cartId
                  \<lparr>id_c = cartId, items_c = [], total_c = 0, createdAt = t_reset\<rparr> s1))
     | _ \<Rightarrow> (Throws, s1))"

text \<open>\<^verbatim>\<open>GET /api/simulate/:tagId\<close> (lines 156 to 197): the handler's own copy of the
  toggle, on the cart \<^verbatim>\<open>"default"\<close>, with no test of the tag before it is normalized.\<close>

definition simulate ::
  "(jsstring \<Rightarrow> jsstring) \<Rightarrow> instant \<Rightarrow> instant \<Rightarrow> jsstring \<Rightarrow> state
     \<Rightarrow> scan_response outcome \<times> state"
where
  "simulate U t_create t_scan tagId s =
    (let normalizedTag = normalizeTag U tagId in
     case products s normalizedTag of
       None \<Rightarrow> (Fail \<lparr>status = 404, error = ''Unknown product''\<rparr>, s)
     | Some product \<Rightarrow>
        (let (v, s1) = getCart t_create (str ''default'') s in
          case v of
            CartV cart \<Rightarrow>
              (let existingIndex =
                     findIndex (\<lambda>it. tag_id it = normalizedTag) (items_c cart)
               in
                 if existingIndex \<noteq> - 1 then
                   (let cart' = cart\<lparr>items_c := splice1 (nat existingIndex) (items_c cart),
                                     total_c := total_c cart - price product\<rparr>
                    in (Ok \<lparr>action = Removed, resp_product = name product,
                            resp_price = price product, cart_total = total_c cart',
                            cart_items = length (items_c cart'), resp_cart = cart'\<rparr>,
                        carts_set (str ''default'') cart' s1))
                 else
                   (let cart' = cart\<lparr>items_c := items_c cart @
                                       [\<lparr>tag_id = normalizedTag, name_i = name product,
                                         price_i = price product,
                                         category_i = category product,
                                         scannedAt = t_scan\<rparr>],
                                     total_c := total_c cart + price product\<rparr>
                    in (Ok \<lparr>action = Added, resp_product = name product,
                            resp_price = price product, cart_total = total_c cart',
                            cart_items = length (items_c cart'), resp_cart = cart'\<rparr>,
                        carts_set (str ''default'') cart' s1)))
          | _ \<Rightarrow> (Throws, s1)))"

subsection \<open>Requests and runs\<close>

text \<open>A request to one of the routes that touch the cart store, with its clock readings.
  \<^verbatim>\<open>GET /api/health\<close> and \<^verbatim>\<open>GET /api/products\<close> read no cart and write nothing.\<close>

datatype request =
    Scan instant instant json "jsstring option"
  | Retrieve instant jsstring
  | Clear instant jsstring
  | Checkout instant instant instant instant jsstring
  | Simulate instant instant jsstring

fun step :: "(jsstring \<Rightarrow> jsstring) \<Rightarrow> request \<Rightarrow> state \<Rightarrow> state" where
  "step U (Scan t1 t2 tag cart_id) s = snd (scan U t1 t2 tag cart_id s)"
| "step U (Retrieve t cartId) s = snd (cart_retrieval t cartId s)"
| "step U (Clear t cartId) s = snd (clear t cartId s)"
| "step U (Checkout t1 t2 t3 t4 cartId) s = snd (checkout t1 t2 t3 t4 cartId s)"
| "step U (Simulate t1 t2 tagId) s = snd (simulate U t1 t2 tagId s)"

text \<open>The requests are handled one after the other, each to completion.\<close>

fun run :: "(jsstring \<Rightarrow> jsstring) \<Rightarrow> request list \<Rightarrow> state \<Rightarrow> state" where
  "run U [] s = s"
| "run U (r # rs) s = run U rs (step U r s)"

subsection \<open>Notions used in the proofs\<close>

text \<open>A cart is consistent with a catalog when its total is the sum of its items' prices,
  no tag occurs in two of its items, and every item carries the catalog price of its tag.
  The last part is what makes the removal branch, which subtracts the catalog's price and
  not the item's, keep the total right.\<close>

definition cart_ok :: "(jsstring \<rightharpoonup> product) \<Rightarrow> cart \<Rightarrow> bool" where
  "cart_ok ps c \<longleftrightarrow>
     total_c c = sum_list (map price_i (items_c c)) \<and>
     distinct (map tag_id (items_c c)) \<and>
     (\<forall>it\<in>set (items_c c). \<exists>p. ps (tag_id it) = Some p \<and> price_i it = price p)"

text \<open>Every cart object that \<^verbatim>\<open>carts[key]\<close> can give, the prototype included, is
  consistent.\<close>

definition store_ok :: "state \<Rightarrow> bool" where
  "store_ok s \<longleftrightarrow> (\<forall>key c. carts_get s key = CartV c \<longrightarrow> cart_ok (products s) c)"

text \<open>The object literal of lines 45 to 50 (and 121 to 126, 146 to 151).\<close>

definition empty_cart :: "jsstring \<Rightarrow> instant \<Rightarrow> cart" where
  "empty_cart key t = \<lparr>id_c = key, items_c = [], total_c = 0, createdAt = t\<rparr>"

text \<open>What the toggle of lines 81 to 101 (and of lines 166 to 186) makes of a cart, and the
  response built from it.\<close>

definition toggled :: "jsstring \<Rightarrow> product \<Rightarrow> instant \<Rightarrow> cart \<Rightarrow> cart" where
  "toggled nt p t c =
     (if findIndex (\<lambda>it. tag_id it = nt) (items_c c) \<noteq> - 1
      then c\<lparr>items_c := splice1 (nat (findIndex (\<lambda>it. tag_id it = nt) (items_c c))) (items_c c),
             total_c := total_c c - price p\<rparr>
      else c\<lparr>items_c := items_c c @ [\<lparr>tag_id = nt, name_i = name p, price_i = price p,
                                        category_i = category p, scannedAt = t\<rparr>],
             total_c := total_c c + price p\<rparr>)"

definition toggle_response :: "jsstring \<Rightarrow> product \<Rightarrow> instant \<Rightarrow> cart \<Rightarrow> scan_response" where
  "toggle_response nt p t c =
     \<lparr>action = (if findIndex (\<lambda>it. tag_id it = nt) (items_c c) \<noteq> - 1 then Removed else Added),
      resp_product = name p, resp_price = price p,
      cart_total = total_c (toggled nt p t c),
      cart_items = length (items_c (toggled nt p t c)),
      resp_cart = toggled nt p t c\<rparr>"

section \<open>Properties\<close>

declare decimal.simps [simp del]

subsection \<open>Reading and writing \<open>carts\<close>\<close>

lemma carts_get_set_same: "carts_get (carts_set key c s) key = CartV c"
  by (simp add: carts_get_def carts_set_def)

lemma products_carts_set: "products (carts_set key c s) = products s"
  by (simp add: carts_set_def)

lemma carts_set_twice: "carts_set key c' (carts_set key c s) = carts_set key c' s"
  by (simp add: carts_set_def)

lemma carts_get_set_CartV:
  "carts_get (carts_set key c s) key' = CartV c' \<Longrightarrow>
     (key' = key \<and> c' = c) \<or> carts_get s key' = CartV c'"
  by (auto simp: carts_get_def carts_set_def inherited_def split: if_splits option.splits)


lemma carts_set_own_other:
  "key' \<noteq> key \<Longrightarrow> carts (carts_set key c s) key' = carts s key'"
  by (simp add: carts_set_def)

lemma getCart_truthy: "truthy (carts_get s key) \<Longrightarrow> getCart t key s = (carts_get s key, s)"
  by (simp add: getCart_def)

lemma getCart_falsy:
  "\<not> truthy (carts_get s key) \<Longrightarrow>
     getCart t key s = (CartV (empty_cart key t), carts_set key (empty_cart key t) s)"
  by (simp add: getCart_def carts_get_set_same empty_cart_def)

lemma getCart_cases:
  obtains (cart) c where "carts_get s key = CartV c" "getCart t key s = (CartV c, s)"
  | (fresh) "\<not> truthy (carts_get s key)"
      "getCart t key s = (CartV (empty_cart key t), carts_set key (empty_cart key t) s)"
  | (other) "carts_get s key = Other True" "getCart t key s = (Other True, s)"
proof (cases "carts_get s key")
  case Undefined
  then show ?thesis using fresh getCart_falsy[of s key t] by simp
next
  case (CartV c)
  then show ?thesis using cart getCart_truthy[of s key t] by simp
next
  case (Other b)
  then show ?thesis using fresh other getCart_falsy[of s key t] getCart_truthy[of s key t]
    by (cases b) simp_all
qed

lemma getCart_set:
  "carts_set key c (snd (getCart t key s)) = carts_set key c s"
  by (cases rule: getCart_cases[of s key t]) (simp_all add: carts_set_twice)

lemma products_getCart: "products (snd (getCart t key s)) = products s"
  by (cases rule: getCart_cases[of s key t]) (simp_all add: products_carts_set)

subsection \<open>\<open>findIndex\<close>, \<open>splice\<close> and the toggle\<close>

lemma findIndexFrom_none: "(findIndexFrom P xs k = - 1) = (\<forall>x\<in>set xs. \<not> P x)"
  by (induction xs arbitrary: k) auto

lemma findIndexFrom_found:
  "findIndexFrom P xs k \<noteq> - 1 \<Longrightarrow>
     (\<exists>i<length xs. findIndexFrom P xs k = int (k + i) \<and> P (xs ! i) \<and> (\<forall>j<i. \<not> P (xs ! j)))"
proof (induction xs arbitrary: k)
  case Nil
  then show ?case by simp
next
  case (Cons x xs)
  show ?case
  proof (cases "P x")
    case True
    then show ?thesis by (intro exI[of _ 0]) simp
  next
    case False
    with Cons.prems have "findIndexFrom P xs (Suc k) \<noteq> - 1" by simp
    from Cons.IH[OF this] obtain i where i: "i < length xs"
      "findIndexFrom P xs (Suc k) = int (Suc k + i)" "P (xs ! i)" "\<forall>j<i. \<not> P (xs ! j)"
      by blast
    show ?thesis
      apply (intro exI[of _ "Suc i"])
      using i False by (auto simp: less_Suc_eq_0_disj)
  qed
qed

lemma findIndex_none: "(findIndex P xs = - 1) = (\<forall>x\<in>set xs. \<not> P x)"
  by (simp add: findIndex_def findIndexFrom_none)

lemma findIndex_found:
  assumes "findIndex P xs \<noteq> - 1"
  shows "nat (findIndex P xs) < length xs" and "P (xs ! nat (findIndex P xs))"
    and "\<forall>j<nat (findIndex P xs). \<not> P (xs ! j)"
  using findIndexFrom_found[of P xs 0] assms by (auto simp: findIndex_def)

lemma length_splice1: "i < length xs \<Longrightarrow> length (splice1 i xs) = length xs - 1"
  by (simp add: splice1_def)

lemma set_splice1: "set (splice1 i xs) \<subseteq> set xs"
  by (auto simp: splice1_def dest: in_set_takeD in_set_dropD)

lemma sum_splice1:
  fixes f :: "'a \<Rightarrow> int"
  assumes "i < length xs"
  shows "sum_list (map f (splice1 i xs)) = sum_list (map f xs) - f (xs ! i)"
proof -
  have "xs = take i xs @ xs ! i # drop (Suc i) xs"
    using assms by (simp add: id_take_nth_drop)
  then have "sum_list (map f xs) = sum_list (map f (take i xs @ xs ! i # drop (Suc i) xs))"
    by simp
  then show ?thesis by (simp add: splice1_def)
qed

lemma distinct_splice1:
  assumes "distinct (map g xs)"
  shows "distinct (map g (splice1 i xs))"
proof -
  have "distinct (map g (take i xs) @ map g (drop i xs))"
    using assms by (simp flip: map_append)
  moreover have "set (map g (drop (Suc i) xs)) \<subseteq> set (map g (drop i xs))"
    by (metis set_drop_subset_set_drop image_mono le_SucI order_refl set_map)
  moreover have "distinct (map g (drop (Suc i) xs))"
    using assms by (simp add: drop_map[symmetric])
  ultimately show ?thesis
    by (auto simp: splice1_def)
qed

lemma splice1_removes:
  assumes "distinct (map g xs)" "i < length xs"
  shows "g (xs ! i) \<notin> g ` set (splice1 i xs)"
proof -
  have xs: "xs = take i xs @ xs ! i # drop (Suc i) xs"
    using assms by (simp add: id_take_nth_drop)
  have "distinct (map g (take i xs @ xs ! i # drop (Suc i) xs))"
    using assms xs by simp
  then show ?thesis by (auto simp: splice1_def)
qed

lemma splice1_append_last: "splice1 (length xs) (xs @ [x]) = xs"
  by (simp add: splice1_def)

lemma cart_ok_empty: "cart_ok ps \<lparr>id_c = k, items_c = [], total_c = 0, createdAt = t\<rparr>"
  by (simp add: cart_ok_def)

lemma cart_ok_removed:
  assumes ok: "cart_ok ps c" and p: "ps nt = Some p"
    and found: "findIndex (\<lambda>it. tag_id it = nt) (items_c c) \<noteq> - 1"
  shows "cart_ok ps
     (c\<lparr>items_c := splice1 (nat (findIndex (\<lambda>it. tag_id it = nt) (items_c c))) (items_c c),
        total_c := total_c c - price p\<rparr>)"
proof -
  let ?i = "nat (findIndex (\<lambda>it. tag_id it = nt) (items_c c))"
  have i: "?i < length (items_c c)" and tag: "tag_id (items_c c ! ?i) = nt"
    using findIndex_found[OF found] by simp_all
  have "items_c c ! ?i \<in> set (items_c c)" using i by simp
  with ok p tag have pr: "price_i (items_c c ! ?i) = price p"
    by (auto simp: cart_ok_def)
  have "sum_list (map price_i (splice1 ?i (items_c c))) = total_c c - price p"
    using ok sum_splice1[OF i, of price_i] pr by (simp add: cart_ok_def)
  moreover have "distinct (map tag_id (splice1 ?i (items_c c)))"
    using ok by (simp add: cart_ok_def distinct_splice1)
  moreover have "\<forall>it\<in>set (splice1 ?i (items_c c)).
      \<exists>p. ps (tag_id it) = Some p \<and> price_i it = price p"
    using ok set_splice1[of ?i "items_c c"] by (auto simp: cart_ok_def)
  ultimately show ?thesis by (simp add: cart_ok_def)
qed

lemma cart_ok_added:
  assumes ok: "cart_ok ps c" and p: "ps nt = Some p"
    and absent: "findIndex (\<lambda>it. tag_id it = nt) (items_c c) = - 1"
  shows "cart_ok ps
     (c\<lparr>items_c := items_c c @ [\<lparr>tag_id = nt, name_i = name p, price_i = price p,
                                  category_i = category p, scannedAt = t\<rparr>],
        total_c := total_c c + price p\<rparr>)"
proof -
  have "nt \<notin> tag_id ` set (items_c c)"
    using absent by (auto simp: findIndex_none)
  then show ?thesis using ok p by (auto simp: cart_ok_def)
qed

lemma cart_ok_toggled: "cart_ok ps c \<Longrightarrow> ps nt = Some p \<Longrightarrow> cart_ok ps (toggled nt p t c)"
  unfolding toggled_def using cart_ok_removed cart_ok_added by auto

lemma id_toggled: "id_c (toggled nt p t c) = id_c c"
  by (simp add: toggled_def)

lemma findIndexFrom_append_last:
  "\<forall>x\<in>set xs. \<not> P x \<Longrightarrow> P y \<Longrightarrow> findIndexFrom P (xs @ [y]) k = int (k + length xs)"
  by (induction xs arbitrary: k) auto

lemma findIndex_append_last:
  "findIndex P xs = - 1 \<Longrightarrow> P y \<Longrightarrow> findIndex P (xs @ [y]) = int (length xs)"
  using findIndexFrom_append_last[of xs P y 0] by (simp add: findIndex_def findIndexFrom_none)

lemma toggled_absent_twice:
  assumes "findIndex (\<lambda>it. tag_id it = nt) (items_c c) = - 1"
  shows "toggled nt p t' (toggled nt p t c) = c"
proof -
  let ?new = "\<lparr>tag_id = nt, name_i = name p, price_i = price p, category_i = category p, scannedAt = t\<rparr>"
  have 1: "toggled nt p t c = c\<lparr>items_c := items_c c @ [?new], total_c := total_c c + price p\<rparr>"
    using assms by (simp add: toggled_def)
  have 2: "findIndex (\<lambda>it. tag_id it = nt) (items_c c @ [?new]) = int (length (items_c c))"
    using assms by (simp add: findIndex_append_last)
  show ?thesis
    unfolding 1 by (simp add: toggled_def 2 splice1_append_last)
qed

lemma toggled_present_twice:
  assumes found: "findIndex (\<lambda>it. tag_id it = nt) (items_c c) \<noteq> - 1"
    and d: "distinct (map tag_id (items_c c))"
  shows "total_c (toggled nt p t' (toggled nt p t c)) = total_c c"
    and "length (items_c (toggled nt p t' (toggled nt p t c))) = length (items_c c)"
proof -
  let ?i = "nat (findIndex (\<lambda>it. tag_id it = nt) (items_c c))"
  have i: "?i < length (items_c c)" and tag: "tag_id (items_c c ! ?i) = nt"
    using findIndex_found[OF found] by simp_all
  have 1: "toggled nt p t c = c\<lparr>items_c := splice1 ?i (items_c c), total_c := total_c c - price p\<rparr>"
    using found by (simp add: toggled_def)
  have "nt \<notin> tag_id ` set (splice1 ?i (items_c c))"
    using splice1_removes[OF d i] tag by simp
  then have 2: "findIndex (\<lambda>it. tag_id it = nt) (splice1 ?i (items_c c)) = - 1"
    by (auto simp: findIndex_none)
  show "total_c (toggled nt p t' (toggled nt p t c)) = total_c c"
    unfolding 1 by (simp add: toggled_def 2)
  show "length (items_c (toggled nt p t' (toggled nt p t c))) = length (items_c c)"
    unfolding 1 using i by (simp add: toggled_def 2 length_splice1)
qed

lemma toggled_twice:
  assumes "distinct (map tag_id (items_c c))"
  shows "total_c (toggled nt p t' (toggled nt p t c)) = total_c c \<and>
         length (items_c (toggled nt p t' (toggled nt p t c))) = length (items_c c)"
proof (cases "findIndex (\<lambda>it. tag_id it = nt) (items_c c) = - 1")
  case True
  then show ?thesis by (simp add: toggled_absent_twice)
next
  case False
  then show ?thesis using toggled_present_twice[OF False assms] by simp
qed

lemma toggled_action_flips:
  assumes "distinct (map tag_id (items_c c))"
  shows "(findIndex (\<lambda>it. tag_id it = nt) (items_c (toggled nt p t c)) = - 1) =
         (findIndex (\<lambda>it. tag_id it = nt) (items_c c) \<noteq> - 1)"
proof (cases "findIndex (\<lambda>it. tag_id it = nt) (items_c c) = - 1")
  case True
  then show ?thesis by (simp add: toggled_def findIndex_append_last)
next
  case False
  let ?i = "nat (findIndex (\<lambda>it. tag_id it = nt) (items_c c))"
  have i: "?i < length (items_c c)" and tag: "tag_id (items_c c ! ?i) = nt"
    using findIndex_found[OF False] by simp_all
  have "nt \<notin> tag_id ` set (splice1 ?i (items_c c))"
    using splice1_removes[OF assms i] tag by simp
  then have "findIndex (\<lambda>it. tag_id it = nt) (splice1 ?i (items_c c)) = - 1"
    by (auto simp: findIndex_none)
  then show ?thesis using False by (simp add: toggled_def)
qed

lemma filter_dropWhile_not: "filter (\<lambda>x. \<not> P x) (dropWhile P xs) = filter (\<lambda>x. \<not> P x) xs"
  by (induction xs) auto

lemma replace_spaces_filter: "replace_spaces s = filter (\<lambda>c. \<not> is_space c) s"
  by (induction s rule: replace_spaces.induct) (auto simp: filter_dropWhile_not)

lemma toggle_response_action:
  "(action (toggle_response nt p t c) = Removed) = (nt \<in> tag_id ` set (items_c c))"
  "(action (toggle_response nt p t c) = Added) =
     (items_c (resp_cart (toggle_response nt p t c)) =
        items_c c @ [\<lparr>tag_id = nt, name_i = name p, price_i = price p,
                       category_i = category p, scannedAt = t\<rparr>])"
proof -
  show "(action (toggle_response nt p t c) = Removed) = (nt \<in> tag_id ` set (items_c c))"
    by (auto simp: toggle_response_def findIndex_none)
  show "(action (toggle_response nt p t c) = Added) =
     (items_c (resp_cart (toggle_response nt p t c)) =
        items_c c @ [\<lparr>tag_id = nt, name_i = name p, price_i = price p,
                       category_i = category p, scannedAt = t\<rparr>])"
  proof (cases "findIndex (\<lambda>it. tag_id it = nt) (items_c c) = - 1")
    case True
    then show ?thesis by (simp add: toggle_response_def toggled_def)
  next
    case False
    let ?i = "nat (findIndex (\<lambda>it. tag_id it = nt) (items_c c))"
    have "length (splice1 ?i (items_c c)) \<noteq> length (items_c c @ [\<lparr>tag_id = nt, name_i = name p,
        price_i = price p, category_i = category p, scannedAt = t\<rparr>])"
      using findIndex_found(1)[OF False] by (simp add: length_splice1)
    then have "splice1 ?i (items_c c) \<noteq> items_c c @ [\<lparr>tag_id = nt, name_i = name p,
        price_i = price p, category_i = category p, scannedAt = t\<rparr>]"
      by metis
    then show ?thesis using False by (simp add: toggle_response_def toggled_def)
  qed
qed

subsection \<open>The handlers, case by case, and the invariant\<close>

lemma scan_falsy:
  "\<not> json_truthy tag \<Longrightarrow> scan U t1 t2 tag cart_id s = (Fail InvalidInput, s)"
  by (simp add: scan_def InvalidInput_def)

lemma scan_not_a_string:
  "json_truthy tag \<Longrightarrow> \<forall>tg. tag \<noteq> JStr tg \<Longrightarrow> scan U t1 t2 tag cart_id s = (Throws, s)"
  by (cases tag) (simp_all add: scan_def)

lemma scan_unknown:
  "tg \<noteq> [] \<Longrightarrow> products s (normalizeTag U tg) = None \<Longrightarrow>
     scan U t1 t2 (JStr tg) cart_id s = (Fail UnknownProduct, s)"
  by (simp add: scan_def UnknownProduct_def)

lemma scan_toggle:
  assumes "tg \<noteq> []" and "products s (normalizeTag U tg) = Some p"
    and "fst (getCart t1 (case cart_id of None \<Rightarrow> str ''default'' | Some c \<Rightarrow> c) s) = CartV c"
  shows "scan U t1 t2 (JStr tg) cart_id s =
     (Ok (toggle_response (normalizeTag U tg) p t2 c),
      carts_set (case cart_id of None \<Rightarrow> str ''default'' | Some c \<Rightarrow> c)
        (toggled (normalizeTag U tg) p t2 c) s)"
  using assms getCart_set[of "case cart_id of None \<Rightarrow> str ''default'' | Some c \<Rightarrow> c" _ t1 s]
  by (simp add: scan_def Let_def split_beta toggled_def toggle_response_def)

lemma scan_throws:
  assumes "tg \<noteq> []" and "products s (normalizeTag U tg) = Some p"
    and "carts_get s (case cart_id of None \<Rightarrow> str ''default'' | Some c \<Rightarrow> c) = Other True"
  shows "scan U t1 t2 (JStr tg) cart_id s = (Throws, s)"
  using assms by (simp add: scan_def Let_def getCart_truthy)

lemma simulate_unknown:
  "products s (normalizeTag U tg) = None \<Longrightarrow> simulate U t1 t2 tg s = (Fail UnknownProduct, s)"
  by (simp add: simulate_def UnknownProduct_def)

lemma simulate_toggle:
  assumes "products s (normalizeTag U tg) = Some p"
    and "fst (getCart t1 (str ''default'') s) = CartV c"
  shows "simulate U t1 t2 tg s =
     (Ok (toggle_response (normalizeTag U tg) p t2 c),
      carts_set (str ''default'') (toggled (normalizeTag U tg) p t2 c) s)"
  using assms getCart_set[of "str ''default''" _ t1 s]
  by (simp add: simulate_def Let_def split_beta toggled_def toggle_response_def)

lemma simulate_throws:
  assumes "products s (normalizeTag U tg) = Some p"
    and "carts_get s (str ''default'') = Other True"
  shows "simulate U t1 t2 tg s = (Throws, s)"
  using assms by (simp add: simulate_def Let_def getCart_truthy)

lemma checkout_nonempty:
  assumes "fst (getCart t1 key s) = CartV c" and "items_c c \<noteq> []"
  shows "checkout t1 t2 t3 t4 key s =
       (Ok \<lparr>receiptId = str ''RCP-'' @ decimal t2, items_r = items_c c, total_r = total_c c,
            itemCount = length (items_c c), checkoutTime = t3\<rparr>,
        carts_set key (empty_cart key t4) s)"
  using assms getCart_set[of key _ t1 s]
  by (simp add: checkout_def Let_def split_beta empty_cart_def)

lemma checkout_empty:
  assumes "fst (getCart t1 key s) = CartV c" and "items_c c = []"
  shows "checkout t1 t2 t3 t4 key s = (Fail EmptyCart, snd (getCart t1 key s))"
  using assms by (simp add: checkout_def Let_def split_beta EmptyCart_def)

lemma checkout_throws:
  assumes "carts_get s key = Other True"
  shows "checkout t1 t2 t3 t4 key s = (Throws, s)"
  using assms by (simp add: checkout_def getCart_truthy)

lemma store_ok_set:
  "store_ok s \<Longrightarrow> cart_ok (products s) c \<Longrightarrow> store_ok (carts_set key c s)"
  unfolding store_ok_def using carts_get_set_CartV[of key c s]
  by (fastforce simp: products_carts_set)

lemma cart_ok_empty_cart: "cart_ok ps (empty_cart key t)"
  by (simp add: empty_cart_def cart_ok_def)

lemma store_ok_getCart: "store_ok s \<Longrightarrow> store_ok (snd (getCart t key s))"
  by (cases rule: getCart_cases[of s key t]) (simp_all add: store_ok_set cart_ok_empty_cart)

lemma getCart_cart_ok:
  "store_ok s \<Longrightarrow> fst (getCart t key s) = CartV c \<Longrightarrow> cart_ok (products s) c"
  by (cases rule: getCart_cases[of s key t])
     (auto simp: store_ok_def cart_ok_empty_cart)

lemma getCart_not_cart:
  "\<forall>c. fst (getCart t key s) \<noteq> CartV c \<Longrightarrow> carts_get s key = Other True"
  by (cases rule: getCart_cases[of s key t]) simp_all

lemma store_ok_scan:
  assumes ok: "store_ok s"
  shows "store_ok (snd (scan U t1 t2 tag cart_id s))"
proof (cases "json_truthy tag")
  case False
  then show ?thesis using ok by (simp add: scan_falsy)
next
  case True
  let ?k = "case cart_id of None \<Rightarrow> str ''default'' | Some c \<Rightarrow> c"
  show ?thesis
  proof (cases "\<exists>tg. tag = JStr tg")
    case False
    then have "\<forall>tg. tag \<noteq> JStr tg" by blast
    from scan_not_a_string[OF True this] show ?thesis using ok by simp
  next
    case str: True
    then obtain tg where tag: "tag = JStr tg" by blast
    with True have tg: "tg \<noteq> []" by simp
    show ?thesis
    proof (cases "products s (normalizeTag U tg)")
      case None
      from scan_unknown[OF tg None] show ?thesis using ok by (simp add: tag)
    next
      case (Some p)
      show ?thesis
      proof (cases "\<exists>c. fst (getCart t1 ?k s) = CartV c")
        case True
        then obtain c where c: "fst (getCart t1 ?k s) = CartV c" by blast
        have "store_ok (carts_set ?k (toggled (normalizeTag U tg) p t2 c) s)"
          by (intro store_ok_set ok cart_ok_toggled getCart_cart_ok[OF ok c] Some)
        then show ?thesis unfolding tag scan_toggle[OF tg Some c] by simp
      next
        case False
        then have "carts_get s ?k = Other True" using getCart_not_cart by blast
        from scan_throws[OF tg Some this] show ?thesis using ok by (simp add: tag)
      qed
    qed
  qed
qed

lemma store_ok_simulate:
  assumes ok: "store_ok s"
  shows "store_ok (snd (simulate U t1 t2 tg s))"
proof (cases "products s (normalizeTag U tg)")
  case None
  with ok show ?thesis by (simp add: simulate_unknown)
next
  case (Some p)
  show ?thesis
  proof (cases "\<exists>c. fst (getCart t1 (str ''default'') s) = CartV c")
    case True
    then obtain c where c: "fst (getCart t1 (str ''default'') s) = CartV c" by blast
    show ?thesis
      using ok getCart_cart_ok[OF ok c] Some
      by (simp add: simulate_toggle[OF Some c] store_ok_set cart_ok_toggled)
  next
    case False
    then have "carts_get s (str ''default'') = Other True"
      using getCart_not_cart by blast
    then show ?thesis using ok by (simp add: simulate_throws[OF Some])
  qed
qed

lemma store_ok_clear: "store_ok s \<Longrightarrow> store_ok (snd (clear t key s))"
  by (simp add: clear_def Let_def store_ok_set cart_ok_empty)

lemma store_ok_checkout:
  assumes ok: "store_ok s"
  shows "store_ok (snd (checkout t1 t2 t3 t4 key s))"
proof (cases "\<exists>c. fst (getCart t1 key s) = CartV c")
  case True
  then obtain c where c: "fst (getCart t1 key s) = CartV c" by blast
  show ?thesis
  proof (cases "items_c c = []")
    case True
    then show ?thesis using ok by (simp add: checkout_empty[OF c] store_ok_getCart)
  next
    case False
    then show ?thesis
      using ok by (simp add: checkout_nonempty[OF c] store_ok_set cart_ok_empty_cart)
  qed
next
  case False
  then have "carts_get s key = Other True" using getCart_not_cart by blast
  then show ?thesis using ok by (simp add: checkout_throws)
qed

lemma store_ok_step: "store_ok s \<Longrightarrow> store_ok (step U r s)"
  by (cases r) (simp_all add: store_ok_scan store_ok_simulate store_ok_getCart store_ok_clear
      store_ok_checkout cart_retrieval_def)

lemma store_ok_run: "store_ok s \<Longrightarrow> store_ok (run U rs s)"
  by (induction rs arbitrary: s) (simp_all add: store_ok_step)

lemma store_ok_init: "store_ok init_state"
  by (auto simp: store_ok_def init_state_def carts_get_def inherited_def split: if_splits)

lemma store_ok_reachable: "store_ok (run U rs init_state)"
  by (rule store_ok_run[OF store_ok_init])

subsection \<open>The catalog stays as it is\<close>

lemma getCart_of_cart: "carts_get s key = CartV c \<Longrightarrow> getCart t key s = (CartV c, s)"
  by (simp add: getCart_truthy)

lemma getCart_same_cart:
  assumes "fst (getCart t key s) = CartV c"
  shows "\<exists>c'. fst (getCart t' key s) = CartV c' \<and> items_c c' = items_c c \<and> total_c c' = total_c c"
  using assms
  by (cases rule: getCart_cases[of s key t]; cases rule: getCart_cases[of s key t'])
     (auto simp: empty_cart_def)

lemma products_step: "products (step U r s) = products s"
proof (cases r)
  case (Scan t1 t2 tag cart_id)
  show ?thesis
    unfolding Scan step.simps scan_def Let_def
    by (auto simp: products_carts_set products_getCart split_beta
             split: json.splits option.splits jsval.splits)
next
  case (Checkout t1 t2 t3 t4 key)
  show ?thesis
    unfolding Checkout step.simps checkout_def Let_def
    by (auto simp: products_carts_set products_getCart split_beta split: jsval.splits)
next
  case (Simulate t1 t2 tg)
  show ?thesis
    unfolding Simulate step.simps simulate_def Let_def
    by (auto simp: products_carts_set products_getCart split_beta
             split: option.splits jsval.splits)
qed (simp_all add: cart_retrieval_def products_getCart clear_def Let_def products_carts_set)

lemma products_run: "products (run U rs s) = products s"
  by (induction rs arbitrary: s) (simp_all add: products_step)

lemma catalog_no_empty_key: "map_of catalog [] = None"
  by (simp add: catalog_def str_def)

lemma normalizeTag_Nil: "normalizeTag U [] = []"
  by (simp add: normalizeTag_def toUpperCase_def)

subsection \<open>Normalization and the responses of a scan\<close>

lemma upper_unit_not_lower: "\<not> (97 \<le> upper_unit c \<and> upper_unit c \<le> 122)"
  by (auto simp: upper_unit_def)

lemma toUpperCase_no_lower: "\<forall>c\<in>set (toUpperCase U s). \<not> (97 \<le> c \<and> c \<le> 122)"
  using upper_unit_not_lower by (auto simp: toUpperCase_def)

lemma toUpperCase_ascii: "\<forall>c\<in>set s. c < 128 \<Longrightarrow> toUpperCase U s = map upper_unit s"
  by (simp add: toUpperCase_def)

lemma normalizeTag_filter:
  "normalizeTag U tg = filter (\<lambda>c. \<not> is_space c) (toUpperCase U tg)"
  by (simp add: normalizeTag_def replace_spaces_filter)

lemma json_falsy_iff:
  "(\<not> json_truthy tag) =
     (tag = JAbsent \<or> tag = JNull \<or> tag = JBool False \<or> tag = JNum 0 \<or> tag = JStr [])"
  by (cases tag) auto

lemma InvalidInput_neq_UnknownProduct: "InvalidInput \<noteq> UnknownProduct"
  by (simp add: InvalidInput_def UnknownProduct_def)

lemma scan_invalid_iff:
  "(fst (scan U t1 t2 tag cart_id s) = Fail InvalidInput) = (\<not> json_truthy tag)"
proof (cases "json_truthy tag")
  case False
  then show ?thesis by (simp add: scan_falsy)
next
  case True
  let ?k = "case cart_id of None \<Rightarrow> str ''default'' | Some c \<Rightarrow> c"
  show ?thesis
  proof (cases "\<exists>tg. tag = JStr tg")
    case False
    then have "\<forall>tg. tag \<noteq> JStr tg" by blast
    from scan_not_a_string[OF True this] show ?thesis using True by simp
  next
    case str: True
    then obtain tg where tag: "tag = JStr tg" by blast
    with True have tg: "tg \<noteq> []" by simp
    show ?thesis
    proof (cases "products s (normalizeTag U tg)")
      case None
      from scan_unknown[OF tg None] show ?thesis
        using True InvalidInput_neq_UnknownProduct by (auto simp: tag)
    next
      case (Some p)
      show ?thesis
      proof (cases "\<exists>c. fst (getCart t1 ?k s) = CartV c")
        case True
        then obtain c where c: "fst (getCart t1 ?k s) = CartV c" by blast
        show ?thesis unfolding tag scan_toggle[OF tg Some c] using tg by simp
      next
        case False
        then have "carts_get s ?k = Other True" using getCart_not_cart by blast
        from scan_throws[OF tg Some this] show ?thesis using tg by (simp add: tag)
      qed
    qed
  qed
qed

lemma findIndexFrom_takeWhile:
  "findIndexFrom P xs k \<noteq> - 1 \<Longrightarrow>
     findIndexFrom P xs k = int (k + length (takeWhile (\<lambda>x. \<not> P x) xs))"
proof (induction xs arbitrary: k)
  case Nil
  then show ?case by simp
next
  case (Cons x xs)
  show ?case
  proof (cases "P x")
    case True
    then show ?thesis by simp
  next
    case False
    with Cons.prems have "findIndexFrom P xs (Suc k) \<noteq> - 1" by simp
    from Cons.IH[OF this] show ?thesis using False by simp
  qed
qed

lemma splice1_first_match:
  assumes "findIndex P xs \<noteq> - 1"
  shows "splice1 (nat (findIndex P xs)) xs =
           takeWhile (\<lambda>x. \<not> P x) xs @ tl (dropWhile (\<lambda>x. \<not> P x) xs)"
proof -
  let ?n = "length (takeWhile (\<lambda>x. \<not> P x) xs)"
  have "findIndexFrom P xs 0 \<noteq> - 1" using assms by (simp add: findIndex_def)
  from findIndexFrom_takeWhile[OF this] have "findIndex P xs = int ?n"
    by (simp add: findIndex_def)
  then have n: "nat (findIndex P xs) = ?n" by simp
  have a: "take ?n xs = takeWhile (\<lambda>x. \<not> P x) xs"
    by (rule takeWhile_eq_take[symmetric])
  have "drop (Suc ?n) xs = tl (drop ?n xs)" by (simp add: drop_Suc tl_drop)
  also have "drop ?n xs = dropWhile (\<lambda>x. \<not> P x) xs"
    by (rule dropWhile_eq_drop[symmetric])
  finally have b: "drop (Suc ?n) xs = tl (dropWhile (\<lambda>x. \<not> P x) xs)" .
  show ?thesis unfolding splice1_def n a b ..
qed

lemma toggle_response_removed:
  "action (toggle_response nt p t c) = Removed \<Longrightarrow>
     items_c (resp_cart (toggle_response nt p t c)) =
       takeWhile (\<lambda>it. tag_id it \<noteq> nt) (items_c c) @ tl (dropWhile (\<lambda>it. tag_id it \<noteq> nt) (items_c c))"
  using splice1_first_match[of "\<lambda>it. tag_id it = nt" "items_c c"]
  by (auto simp: toggle_response_def toggled_def split: if_splits)

lemma toggle_response_totals:
  "total_c (resp_cart (toggle_response nt p t c)) =
     (if action (toggle_response nt p t c) = Removed then total_c c - price p else total_c c + price p)"
  by (simp add: toggle_response_def toggled_def)

lemma scan_found_response:
  assumes "tg \<noteq> []" and "products s (normalizeTag U tg) = Some p"
    and "fst (getCart t1 (case cart_id of None \<Rightarrow> str ''default'' | Some c \<Rightarrow> c) s) = CartV c"
  shows "\<exists>r. scan U t1 t2 (JStr tg) cart_id s =
               (Ok r, carts_set (case cart_id of None \<Rightarrow> str ''default'' | Some c \<Rightarrow> c) (resp_cart r) s) \<and>
            carts_get (snd (scan U t1 t2 (JStr tg) cart_id s))
               (case cart_id of None \<Rightarrow> str ''default'' | Some c \<Rightarrow> c) = CartV (resp_cart r) \<and>
            resp_product r = name p \<and>
            (action r = Removed) = (normalizeTag U tg \<in> tag_id ` set (items_c c)) \<and>
            (action r = Added \<longrightarrow>
               items_c (resp_cart r) = items_c c @
                 [\<lparr>tag_id = normalizeTag U tg, name_i = name p, price_i = price p,
                   category_i = category p, scannedAt = t2\<rparr>]) \<and>
            (action r = Removed \<longrightarrow>
               items_c (resp_cart r) =
                 takeWhile (\<lambda>it. tag_id it \<noteq> normalizeTag U tg) (items_c c) @
                 tl (dropWhile (\<lambda>it. tag_id it \<noteq> normalizeTag U tg) (items_c c)))"
proof -
  let ?r = "toggle_response (normalizeTag U tg) p t2 c"
  have rc: "resp_cart ?r = toggled (normalizeTag U tg) p t2 c" by (simp add: toggle_response_def)
  have "scan U t1 t2 (JStr tg) cart_id s =
      (Ok ?r, carts_set (case cart_id of None \<Rightarrow> str ''default'' | Some c \<Rightarrow> c) (resp_cart ?r) s)"
    using scan_toggle[OF assms, of t2] by (simp add: rc)
  moreover have "resp_product ?r = name p" by (simp add: toggle_response_def)
  ultimately show ?thesis
    using toggle_response_action[of "normalizeTag U tg" p t2 c]
      toggle_response_removed[of "normalizeTag U tg" p t2 c]
    by (intro exI[of _ ?r]) (simp add: carts_get_set_same)
qed

subsection \<open>A normalized tag names no inherited property\<close>

lemma inherited_keys_have_lower:
  "key \<in> set object_prototype_keys \<or> key = str ''__proto__'' \<Longrightarrow>
     \<exists>c\<in>set key. 97 \<le> c \<and> c \<le> 122"
  by (auto simp: object_prototype_keys_def str_def)

lemma normalized_tag_not_inherited:
  "normalizeTag U tg \<notin> set object_prototype_keys \<and> normalizeTag U tg \<noteq> str ''__proto__''"
proof -
  have "\<forall>c\<in>set (normalizeTag U tg). \<not> (97 \<le> c \<and> c \<le> 122)"
    using toUpperCase_no_lower[of U tg] by (auto simp: normalizeTag_filter)
  then show ?thesis using inherited_keys_have_lower[of "normalizeTag U tg"] by blast
qed

subsection \<open>What a request leaves alone\<close>
















subsection \<open>Evaluation\<close>

text \<open>The definitions that the evaluation of a handler on a concrete request unfolds.\<close>

lemmas eval_defs = str_def normalizeTag_def toUpperCase_def upper_unit_def is_space_def
  init_state_def catalog_def scan_def simulate_def checkout_def clear_def cart_retrieval_def
  getCart_def carts_get_def carts_set_def inherited_def object_prototype_keys_def
  findIndex_def splice1_def Let_def decimal.simps

section \<open>The claims\<close>

text \<open>
  Claim C1. In every state that a sequence of scan, cart-retrieval, clear, checkout (and
  simulate) requests reaches from the state at start-up, every cart object that
  \<^verbatim>\<open>carts[cartId]\<close> gives has a total equal to the sum of the prices of its items. The
  sequence is arbitrary, so this holds after each request.
\<close>

theorem total_is_sum_of_item_prices:
  "carts_get (run U rs init_state) cartId = CartV c \<Longrightarrow>
     total_c c = sum_list (map price_i (items_c c))"
  using store_ok_reachable[of U rs] by (simp add: store_ok_def cart_ok_def)

theorem total_is_sum_of_item_prices_witness:
  "carts_get (run (\<lambda>x. x) [Scan 1 2 (JStr (str ''a1b2c3d4'')) (Some (str ''c1'')), Scan 3 4 (JStr (str ''dead beef'')) (Some (str ''c1'')), Scan 5 6 (JStr (str ''CAFEBABE'')) (Some (str ''c1'')), Scan 7 8 (JStr (str ''A1B2 C3D4'')) (Some (str ''c1''))] init_state) (str ''c1'')
     = CartV \<lparr>id_c = str ''c1'', items_c = [\<lparr>tag_id = str ''DEADBEEF'', name_i = str ''Apple Juice (500ml)'', price_i = 80, category_i = str ''Beverages'', scannedAt = 4\<rparr>, \<lparr>tag_id = str ''CAFEBABE'', name_i = str ''Biscuits (200g)'', price_i = 25, category_i = str ''Snacks'', scannedAt = 6\<rparr>], total_c = 105, createdAt = 1\<rparr>
   \<and> (105 :: int) = sum_list (map price_i [\<lparr>tag_id = str ''DEADBEEF'', name_i = str ''Apple Juice (500ml)'', price_i = 80, category_i = str ''Beverages'', scannedAt = 4\<rparr>, \<lparr>tag_id = str ''CAFEBABE'', name_i = str ''Biscuits (200g)'', price_i = 25, category_i = str ''Snacks'', scannedAt = 6\<rparr>])"
proof -
  have h: "carts_get (run (\<lambda>x. x) [Scan 1 2 (JStr (str ''a1b2c3d4'')) (Some (str ''c1'')), Scan 3 4 (JStr (str ''dead beef'')) (Some (str ''c1'')), Scan 5 6 (JStr (str ''CAFEBABE'')) (Some (str ''c1'')), Scan 7 8 (JStr (str ''A1B2 C3D4'')) (Some (str ''c1''))] init_state) (str ''c1'')
     = CartV \<lparr>id_c = str ''c1'', items_c = [\<lparr>tag_id = str ''DEADBEEF'', name_i = str ''Apple Juice (500ml)'', price_i = 80, category_i = str ''Beverages'', scannedAt = 4\<rparr>, \<lparr>tag_id = str ''CAFEBABE'', name_i = str ''Biscuits (200g)'', price_i = 25, category_i = str ''Snacks'', scannedAt = 6\<rparr>], total_c = 105, createdAt = 1\<rparr>"
    by (simp add: eval_defs)
  from total_is_sum_of_item_prices[OF h] h show ?thesis by simp
qed


text \<open>
  Claim C9. In every state reached from the state at start-up, no cart holds two items
  with the same normalized tag.
\<close>

theorem tag_in_at_most_one_item:
  "carts_get (run U rs init_state) cartId = CartV c \<Longrightarrow> distinct (map tag_id (items_c c))"
  using store_ok_reachable[of U rs] by (simp add: store_ok_def cart_ok_def)

theorem tag_in_at_most_one_item_witness:
  "carts_get (run (\<lambda>x. x) [Clear 1 (str ''__proto__''), Simulate 2 3 (str ''f00dcafe''), Scan 4 5 (JStr (str ''99887766'')) (Some (str ''__proto__'')), Scan 6 7 (JStr (str ''f00d cafe'')) (Some (str ''__proto__'')), Scan 8 9 (JStr (str ''F00DCAFE'')) (Some (str ''__proto__'')), Scan 10 11 (JStr (str ''f00dcafe'')) (Some (str ''__proto__''))] init_state) (str ''__proto__'')
     = CartV \<lparr>id_c = str ''__proto__'', items_c = [\<lparr>tag_id = str ''99887766'', name_i = str ''Butter (100g)'', price_i = 55, category_i = str ''Dairy'', scannedAt = 5\<rparr>, \<lparr>tag_id = str ''F00DCAFE'', name_i = str ''Chips (150g)'', price_i = 35, category_i = str ''Snacks'', scannedAt = 11\<rparr>], total_c = 90, createdAt = 1\<rparr>
   \<and> distinct (map tag_id [\<lparr>tag_id = str ''99887766'', name_i = str ''Butter (100g)'', price_i = 55, category_i = str ''Dairy'', scannedAt = 5\<rparr>, \<lparr>tag_id = str ''F00DCAFE'', name_i = str ''Chips (150g)'', price_i = 35, category_i = str ''Snacks'', scannedAt = 11\<rparr>])"
proof -
  have h: "carts_get (run (\<lambda>x. x) [Clear 1 (str ''__proto__''), Simulate 2 3 (str ''f00dcafe''), Scan 4 5 (JStr (str ''99887766'')) (Some (str ''__proto__'')), Scan 6 7 (JStr (str ''f00d cafe'')) (Some (str ''__proto__'')), Scan 8 9 (JStr (str ''F00DCAFE'')) (Some (str ''__proto__'')), Scan 10 11 (JStr (str ''f00dcafe'')) (Some (str ''__proto__''))] init_state) (str ''__proto__'')
     = CartV \<lparr>id_c = str ''__proto__'', items_c = [\<lparr>tag_id = str ''99887766'', name_i = str ''Butter (100g)'', price_i = 55, category_i = str ''Dairy'', scannedAt = 5\<rparr>, \<lparr>tag_id = str ''F00DCAFE'', name_i = str ''Chips (150g)'', price_i = 35, category_i = str ''Snacks'', scannedAt = 11\<rparr>], total_c = 90, createdAt = 1\<rparr>"
    by (simp add: eval_defs)
  from tag_in_at_most_one_item[OF h] h show ?thesis by simp
qed


text \<open>
  Claim C2. When \<^verbatim>\<open>carts[cartId]\<close> is a cart with at least one item, checkout answers
  with a receipt: its items are the cart's items, its total the cart's total and its item
  count the number of the cart's items, all as they were before the request. After the
  request \<^verbatim>\<open>carts[cartId]\<close> is a cart with no items and total 0.
\<close>

theorem checkout_returns_receipt_and_resets:
  assumes "carts_get s cartId = CartV c" and "items_c c \<noteq> []"
  shows "(\<exists>r. fst (checkout t1 t2 t3 t4 cartId s) = Ok r \<and>
              items_r r = items_c c \<and> total_r r = total_c c \<and> itemCount r = length (items_c c)) \<and>
         (\<exists>c'. carts_get (snd (checkout t1 t2 t3 t4 cartId s)) cartId = CartV c' \<and>
               items_c c' = [] \<and> total_c c' = 0)"
proof -
  have "fst (getCart t1 cartId s) = CartV c" using assms(1) by (simp add: getCart_of_cart)
  from checkout_nonempty[OF this assms(2)] show ?thesis
    by (simp add: carts_get_set_same empty_cart_def)
qed

theorem checkout_returns_receipt_and_resets_witness:
  "carts_get (run (\<lambda>x. x) [Scan 1 2 (JStr (str ''a1b2c3d4'')) (Some (str ''c1'')), Scan 3 4 (JStr (str ''55667788'')) (Some (str ''c1''))] init_state) (str ''c1'') = CartV \<lparr>id_c = str ''c1'', items_c = [\<lparr>tag_id = str ''A1B2C3D4'', name_i = str ''Milk (1L)'', price_i = 40, category_i = str ''Dairy'', scannedAt = 2\<rparr>, \<lparr>tag_id = str ''55667788'', name_i = str ''Rice (1kg)'', price_i = 65, category_i = str ''Grains'', scannedAt = 4\<rparr>], total_c = 105, createdAt = 1\<rparr>
   \<and> fst (checkout 5 6 7 8 (str ''c1'') (run (\<lambda>x. x) [Scan 1 2 (JStr (str ''a1b2c3d4'')) (Some (str ''c1'')), Scan 3 4 (JStr (str ''55667788'')) (Some (str ''c1''))] init_state)) = Ok \<lparr>receiptId = str ''RCP-6'', items_r = [\<lparr>tag_id = str ''A1B2C3D4'', name_i = str ''Milk (1L)'', price_i = 40, category_i = str ''Dairy'', scannedAt = 2\<rparr>, \<lparr>tag_id = str ''55667788'', name_i = str ''Rice (1kg)'', price_i = 65, category_i = str ''Grains'', scannedAt = 4\<rparr>], total_r = 105, itemCount = 2, checkoutTime = 7\<rparr>
   \<and> carts_get (snd (checkout 5 6 7 8 (str ''c1'') (run (\<lambda>x. x) [Scan 1 2 (JStr (str ''a1b2c3d4'')) (Some (str ''c1'')), Scan 3 4 (JStr (str ''55667788'')) (Some (str ''c1''))] init_state))) (str ''c1'')
     = CartV \<lparr>id_c = str ''c1'', items_c = [], total_c = 0, createdAt = 8\<rparr>"
proof -
  have h: "carts_get (run (\<lambda>x. x) [Scan 1 2 (JStr (str ''a1b2c3d4'')) (Some (str ''c1'')), Scan 3 4 (JStr (str ''55667788'')) (Some (str ''c1''))] init_state) (str ''c1'') = CartV \<lparr>id_c = str ''c1'', items_c = [\<lparr>tag_id = str ''A1B2C3D4'', name_i = str ''Milk (1L)'', price_i = 40, category_i = str ''Dairy'', scannedAt = 2\<rparr>, \<lparr>tag_id = str ''55667788'', name_i = str ''Rice (1kg)'', price_i = 65, category_i = str ''Grains'', scannedAt = 4\<rparr>], total_c = 105, createdAt = 1\<rparr>" by (simp add: eval_defs)
  have ne: "items_c \<lparr>id_c = str ''c1'', items_c = [\<lparr>tag_id = str ''A1B2C3D4'', name_i = str ''Milk (1L)'', price_i = 40, category_i = str ''Dairy'', scannedAt = 2\<rparr>, \<lparr>tag_id = str ''55667788'', name_i = str ''Rice (1kg)'', price_i = 65, category_i = str ''Grains'', scannedAt = 4\<rparr>], total_c = 105, createdAt = 1\<rparr> \<noteq> []" by simp
  have r: "fst (checkout 5 6 7 8 (str ''c1'') (run (\<lambda>x. x) [Scan 1 2 (JStr (str ''a1b2c3d4'')) (Some (str ''c1'')), Scan 3 4 (JStr (str ''55667788'')) (Some (str ''c1''))] init_state)) = Ok \<lparr>receiptId = str ''RCP-6'', items_r = [\<lparr>tag_id = str ''A1B2C3D4'', name_i = str ''Milk (1L)'', price_i = 40, category_i = str ''Dairy'', scannedAt = 2\<rparr>, \<lparr>tag_id = str ''55667788'', name_i = str ''Rice (1kg)'', price_i = 65, category_i = str ''Grains'', scannedAt = 4\<rparr>], total_r = 105, itemCount = 2, checkoutTime = 7\<rparr>" by (simp add: eval_defs)
  have a: "carts_get (snd (checkout 5 6 7 8 (str ''c1'') (run (\<lambda>x. x) [Scan 1 2 (JStr (str ''a1b2c3d4'')) (Some (str ''c1'')), Scan 3 4 (JStr (str ''55667788'')) (Some (str ''c1''))] init_state))) (str ''c1'')
     = CartV \<lparr>id_c = str ''c1'', items_c = [], total_c = 0, createdAt = 8\<rparr>" by (simp add: eval_defs)
  note T = checkout_returns_receipt_and_resets[OF h ne, where ?t1.0=5 and ?t2.0=6 and ?t3.0=7 and ?t4.0=8]
  from T h r a show ?thesis by blast
qed


text \<open>
  Claim C3. In a state reached from the state at start-up, let a tag whose normalized
  form is in the catalog be scanned twice in a row for the same cart id. When
  \<^verbatim>\<open>getCart\<close> gives a cart for that id, it gives after the second scan a cart with the
  total and the number of items of the cart before the first; both scans answer, one adds
  and the other removes, and the second response reports that total and that count. When
  the id names a value that is not a cart (an inherited property such as
  \<^verbatim>\<open>constructor\<close>), there is no cart: both scans throw and the state stays as it was.
  (The states of the running program are the reached ones; in a cart that held a tag
  twice, two scans would remove two items.)
\<close>

theorem scan_twice_restores_total_and_count:
  assumes "products (run U rs init_state) (normalizeTag U tg) \<noteq> None"
    and "k = (case cart_id of None \<Rightarrow> str ''default'' | Some c \<Rightarrow> c)"
    and "s1 = snd (scan U t1 t2 (JStr tg) cart_id (run U rs init_state))"
    and "s2 = snd (scan U t3 t4 (JStr tg) cart_id s1)"
  shows "(\<forall>c. fst (getCart t k (run U rs init_state)) = CartV c \<longrightarrow>
            (\<exists>c2. fst (getCart t k s2) = CartV c2 \<and> total_c c2 = total_c c \<and>
                  length (items_c c2) = length (items_c c)) \<and>
            (\<exists>r1 r2. fst (scan U t1 t2 (JStr tg) cart_id (run U rs init_state)) = Ok r1 \<and>
                  fst (scan U t3 t4 (JStr tg) cart_id s1) = Ok r2 \<and>
                  action r1 \<noteq> action r2 \<and>
                  cart_total r2 = total_c c \<and> cart_items r2 = length (items_c c))) \<and>
         ((\<forall>c. fst (getCart t k (run U rs init_state)) \<noteq> CartV c) \<longrightarrow>
            scan U t1 t2 (JStr tg) cart_id (run U rs init_state) = (Throws, run U rs init_state) \<and>
            scan U t3 t4 (JStr tg) cart_id s1 = (Throws, run U rs init_state) \<and>
            s2 = run U rs init_state)"
proof -
  let ?s = "run U rs init_state"
  let ?nt = "normalizeTag U tg"
  have ok: "store_ok ?s" by (rule store_ok_reachable)
  have cat: "products ?s = map_of catalog" by (simp add: products_run init_state_def)
  have tg: "tg \<noteq> []"
    using assms(1) by (auto simp: cat normalizeTag_Nil catalog_no_empty_key)
  from assms(1) obtain p where p: "products ?s ?nt = Some p" by auto
  have A: "\<And>c. fst (getCart t k ?s) = CartV c \<Longrightarrow>
            (\<exists>c2. fst (getCart t k s2) = CartV c2 \<and> total_c c2 = total_c c \<and>
                  length (items_c c2) = length (items_c c)) \<and>
            (\<exists>r1 r2. fst (scan U t1 t2 (JStr tg) cart_id ?s) = Ok r1 \<and>
                  fst (scan U t3 t4 (JStr tg) cart_id s1) = Ok r2 \<and>
                  action r1 \<noteq> action r2 \<and>
                  cart_total r2 = total_c c \<and> cart_items r2 = length (items_c c))"
  proof -
    fix c assume c: "fst (getCart t k ?s) = CartV c"
    from getCart_same_cart[OF c, of t1] obtain c' where
      c': "fst (getCart t1 k ?s) = CartV c'" "items_c c' = items_c c" "total_c c' = total_c c"
      by blast
    have d: "distinct (map tag_id (items_c c'))"
      using getCart_cart_ok[OF ok c'(1)] by (simp add: cart_ok_def)
    let ?c1 = "toggled ?nt p t2 c'"
    let ?c2 = "toggled ?nt p t4 ?c1"
    have r1: "scan U t1 t2 (JStr tg) cart_id ?s = (Ok (toggle_response ?nt p t2 c'), carts_set k ?c1 ?s)"
      using scan_toggle[OF tg p, of t1 cart_id c' t2] c'(1) by (simp add: assms(2))
    have s1: "s1 = carts_set k ?c1 ?s" by (simp add: assms(3) r1)
    have p1: "products s1 ?nt = Some p" by (simp add: s1 products_carts_set p)
    have g1: "fst (getCart t3 k s1) = CartV ?c1"
      by (simp add: s1 getCart_of_cart carts_get_set_same)
    have r2: "scan U t3 t4 (JStr tg) cart_id s1 = (Ok (toggle_response ?nt p t4 ?c1), carts_set k ?c2 ?s)"
    proof -
      have g1': "fst (getCart t3 (case cart_id of None \<Rightarrow> str ''default'' | Some c \<Rightarrow> c) s1)
          = CartV ?c1"
        using g1 by (simp add: assms(2))
      note T = scan_toggle[OF tg p1 g1', of t4, folded assms(2)]
      have "carts_set k ?c2 s1 = carts_set k ?c2 ?s" by (simp add: s1 carts_set_twice)
      with T show ?thesis by simp
    qed
    have s2: "s2 = carts_set k ?c2 ?s" by (simp add: assms(4) r2)
    have v2: "fst (getCart t k s2) = CartV ?c2"
      by (simp add: s2 getCart_of_cart carts_get_set_same)
    have tw: "total_c ?c2 = total_c c'" "length (items_c ?c2) = length (items_c c')"
      using toggled_twice[OF d, of ?nt p t4 t2] by simp_all
    have fl: "action (toggle_response ?nt p t2 c') \<noteq> action (toggle_response ?nt p t4 ?c1)"
      using toggled_action_flips[OF d, of ?nt p t2] by (simp add: toggle_response_def)
    show "(\<exists>c2. fst (getCart t k s2) = CartV c2 \<and> total_c c2 = total_c c \<and>
                  length (items_c c2) = length (items_c c)) \<and>
            (\<exists>r1 r2. fst (scan U t1 t2 (JStr tg) cart_id ?s) = Ok r1 \<and>
                  fst (scan U t3 t4 (JStr tg) cart_id s1) = Ok r2 \<and>
                  action r1 \<noteq> action r2 \<and>
                  cart_total r2 = total_c c \<and> cart_items r2 = length (items_c c))"
      using tw fl c'(2,3) by (simp add: v2 r1 r2 toggle_response_def)
  qed
  have B: "(\<forall>c. fst (getCart t k ?s) \<noteq> CartV c) \<Longrightarrow>
            scan U t1 t2 (JStr tg) cart_id ?s = (Throws, ?s) \<and>
            scan U t3 t4 (JStr tg) cart_id s1 = (Throws, ?s) \<and> s2 = ?s"
  proof -
    assume "\<forall>c. fst (getCart t k ?s) \<noteq> CartV c"
    then have o: "carts_get ?s k = Other True" by (rule getCart_not_cart)
    have r1: "scan U t1 t2 (JStr tg) cart_id ?s = (Throws, ?s)"
      using scan_throws[OF tg p, of cart_id t1 t2] o by (simp add: assms(2))
    then have s1: "s1 = ?s" by (simp add: assms(3))
    have r2: "scan U t3 t4 (JStr tg) cart_id ?s = (Throws, ?s)"
      using scan_throws[OF tg p, of cart_id t3 t4] o by (simp add: assms(2))
    show ?thesis using r1 r2 by (simp add: s1 assms(4))
  qed
  from A B show ?thesis by blast
qed

theorem scan_twice_restores_total_and_count_witness:
  "products (run (\<lambda>x. x) [Scan 1 2 (JStr (str ''a1b2c3d4'')) (Some (str ''c1'')), Scan 3 4 (JStr (str ''CAFE BABE'')) (Some (str ''c1''))] init_state) (normalizeTag (\<lambda>x. x) (str ''a1 b2 c3 d4'')) \<noteq> None \<and>
   fst (getCart 9 (str ''c1'') (run (\<lambda>x. x) [Scan 1 2 (JStr (str ''a1b2c3d4'')) (Some (str ''c1'')), Scan 3 4 (JStr (str ''CAFE BABE'')) (Some (str ''c1''))] init_state)) = CartV \<lparr>id_c = str ''c1'', items_c = [\<lparr>tag_id = str ''A1B2C3D4'', name_i = str ''Milk (1L)'', price_i = 40, category_i = str ''Dairy'', scannedAt = 2\<rparr>, \<lparr>tag_id = str ''CAFEBABE'', name_i = str ''Biscuits (200g)'', price_i = 25, category_i = str ''Snacks'', scannedAt = 4\<rparr>], total_c = 65, createdAt = 1\<rparr> \<and>
   (\<exists>c2. fst (getCart 9 (str ''c1'') (snd (scan (\<lambda>x. x) 7 8 (JStr (str ''a1 b2 c3 d4'')) (Some (str ''c1'')) (snd (scan (\<lambda>x. x) 5 6 (JStr (str ''a1 b2 c3 d4'')) (Some (str ''c1'')) (run (\<lambda>x. x) [Scan 1 2 (JStr (str ''a1b2c3d4'')) (Some (str ''c1'')), Scan 3 4 (JStr (str ''CAFE BABE'')) (Some (str ''c1''))] init_state)))))) = CartV c2 \<and> total_c c2 = 65 \<and> length (items_c c2) = 2) \<and>
   fst (getCart 9 (str ''constructor'') (run (\<lambda>x. x) [Scan 1 2 (JStr (str ''a1b2c3d4'')) (Some (str ''c1'')), Scan 3 4 (JStr (str ''CAFE BABE'')) (Some (str ''c1''))] init_state)) = Other True \<and>
   scan (\<lambda>x. x) 5 6 (JStr (str ''a1 b2 c3 d4'')) (Some (str ''constructor'')) (run (\<lambda>x. x) [Scan 1 2 (JStr (str ''a1b2c3d4'')) (Some (str ''c1'')), Scan 3 4 (JStr (str ''CAFE BABE'')) (Some (str ''c1''))] init_state) = (Throws, (run (\<lambda>x. x) [Scan 1 2 (JStr (str ''a1b2c3d4'')) (Some (str ''c1'')), Scan 3 4 (JStr (str ''CAFE BABE'')) (Some (str ''c1''))] init_state))"
proof -
  have h: "products (run (\<lambda>x. x) [Scan 1 2 (JStr (str ''a1b2c3d4'')) (Some (str ''c1'')), Scan 3 4 (JStr (str ''CAFE BABE'')) (Some (str ''c1''))] init_state) (normalizeTag (\<lambda>x. x) (str ''a1 b2 c3 d4'')) \<noteq> None"
    by (simp add: eval_defs)
  have g: "fst (getCart 9 (str ''c1'') (run (\<lambda>x. x) [Scan 1 2 (JStr (str ''a1b2c3d4'')) (Some (str ''c1'')), Scan 3 4 (JStr (str ''CAFE BABE'')) (Some (str ''c1''))] init_state)) = CartV \<lparr>id_c = str ''c1'', items_c = [\<lparr>tag_id = str ''A1B2C3D4'', name_i = str ''Milk (1L)'', price_i = 40, category_i = str ''Dairy'', scannedAt = 2\<rparr>, \<lparr>tag_id = str ''CAFEBABE'', name_i = str ''Biscuits (200g)'', price_i = 25, category_i = str ''Snacks'', scannedAt = 4\<rparr>], total_c = 65, createdAt = 1\<rparr>"
    by (simp add: eval_defs)
  have o: "fst (getCart 9 (str ''constructor'') (run (\<lambda>x. x) [Scan 1 2 (JStr (str ''a1b2c3d4'')) (Some (str ''c1'')), Scan 3 4 (JStr (str ''CAFE BABE'')) (Some (str ''c1''))] init_state)) = Other True"
    by (simp add: eval_defs)
  have k1: "str ''c1'' = (case Some (str ''c1'') of None \<Rightarrow> str ''default'' | Some c \<Rightarrow> c)" by simp
  have k2: "str ''constructor'' = (case Some (str ''constructor'') of None \<Rightarrow> str ''default'' | Some c \<Rightarrow> c)"
    by simp
  note T1 = scan_twice_restores_total_and_count[OF h k1 refl refl,
      where ?t1.0=5 and ?t2.0=6 and ?t3.0=7 and ?t4.0=8 and t=9]
  note T2 = scan_twice_restores_total_and_count[OF h k2 refl refl,
      where ?t1.0=5 and ?t2.0=6 and ?t3.0=7 and ?t4.0=8 and t=9]
  from T1[THEN conjunct1, rule_format, OF g, THEN conjunct1] obtain c2 where
    c2: "fst (getCart 9 (str ''c1'') (snd (scan (\<lambda>x. x) 7 8 (JStr (str ''a1 b2 c3 d4'')) (Some (str ''c1'')) (snd (scan (\<lambda>x. x) 5 6 (JStr (str ''a1 b2 c3 d4'')) (Some (str ''c1'')) (run (\<lambda>x. x) [Scan 1 2 (JStr (str ''a1b2c3d4'')) (Some (str ''c1'')), Scan 3 4 (JStr (str ''CAFE BABE'')) (Some (str ''c1''))] init_state)))))) = CartV c2"
      "total_c c2 = total_c \<lparr>id_c = str ''c1'', items_c = [\<lparr>tag_id = str ''A1B2C3D4'', name_i = str ''Milk (1L)'', price_i = 40, category_i = str ''Dairy'', scannedAt = 2\<rparr>, \<lparr>tag_id = str ''CAFEBABE'', name_i = str ''Biscuits (200g)'', price_i = 25, category_i = str ''Snacks'', scannedAt = 4\<rparr>], total_c = 65, createdAt = 1\<rparr>"
      "length (items_c c2) = length (items_c \<lparr>id_c = str ''c1'', items_c = [\<lparr>tag_id = str ''A1B2C3D4'', name_i = str ''Milk (1L)'', price_i = 40, category_i = str ''Dairy'', scannedAt = 2\<rparr>, \<lparr>tag_id = str ''CAFEBABE'', name_i = str ''Biscuits (200g)'', price_i = 25, category_i = str ''Snacks'', scannedAt = 4\<rparr>], total_c = 65, createdAt = 1\<rparr>)"
    by blast
  have 1: "\<exists>c2. fst (getCart 9 (str ''c1'') (snd (scan (\<lambda>x. x) 7 8 (JStr (str ''a1 b2 c3 d4'')) (Some (str ''c1'')) (snd (scan (\<lambda>x. x) 5 6 (JStr (str ''a1 b2 c3 d4'')) (Some (str ''c1'')) (run (\<lambda>x. x) [Scan 1 2 (JStr (str ''a1b2c3d4'')) (Some (str ''c1'')), Scan 3 4 (JStr (str ''CAFE BABE'')) (Some (str ''c1''))] init_state)))))) = CartV c2 \<and> total_c c2 = 65 \<and> length (items_c c2) = 2"
    using c2 by (intro exI[of _ c2]) simp
  have 2: "scan (\<lambda>x. x) 5 6 (JStr (str ''a1 b2 c3 d4'')) (Some (str ''constructor'')) (run (\<lambda>x. x) [Scan 1 2 (JStr (str ''a1b2c3d4'')) (Some (str ''c1'')), Scan 3 4 (JStr (str ''CAFE BABE'')) (Some (str ''c1''))] init_state) = (Throws, (run (\<lambda>x. x) [Scan 1 2 (JStr (str ''a1b2c3d4'')) (Some (str ''c1'')), Scan 3 4 (JStr (str ''CAFE BABE'')) (Some (str ''c1''))] init_state))"
    using T2[THEN conjunct2] o by simp
  from h g 1 o 2 show ?thesis by blast
qed


text \<open>
  Claim C4, as amended. Checkout of a cart with no items answers with the error
  \<open>EmptyCart\<close>, status 400. When \<^verbatim>\<open>carts[cartId]\<close> already is that empty cart, the
  state is left as it was. When \<^verbatim>\<open>carts[cartId]\<close> is not truthy (the id is unknown),
  \<^verbatim>\<open>getCart\<close> has assigned a new empty cart to it before the test of line 134; that
  assignment is the only change. The claim as stated (no entry is created) fails for an
  id the store has not seen.
\<close>

theorem checkout_of_empty_cart:
  "(carts_get s cartId = CartV c \<and> items_c c = [] \<longrightarrow>
      checkout t1 t2 t3 t4 cartId s = (Fail EmptyCart, s)) \<and>
   (\<not> truthy (carts_get s cartId) \<longrightarrow>
      checkout t1 t2 t3 t4 cartId s =
        (Fail EmptyCart,
         carts_set cartId \<lparr>id_c = cartId, items_c = [], total_c = 0, createdAt = t1\<rparr> s)) \<and>
   status EmptyCart = 400"
proof -
  have a: "carts_get s cartId = CartV c \<and> items_c c = [] \<longrightarrow>
      checkout t1 t2 t3 t4 cartId s = (Fail EmptyCart, s)"
    using checkout_empty[of t1 cartId s c t2 t3 t4] by (auto simp: getCart_of_cart)
  have b: "\<not> truthy (carts_get s cartId) \<longrightarrow>
      checkout t1 t2 t3 t4 cartId s =
        (Fail EmptyCart,
         carts_set cartId \<lparr>id_c = cartId, items_c = [], total_c = 0, createdAt = t1\<rparr> s)"
    using checkout_empty[of t1 cartId s "empty_cart cartId t1" t2 t3 t4]
    by (auto simp: getCart_falsy) (simp add: empty_cart_def)
  show ?thesis using a b by (simp add: EmptyCart_def)
qed

theorem checkout_of_empty_cart_witness:
  "carts_get (run (\<lambda>x. x) [Clear 1 (str ''c1'')] init_state) (str ''c1'') = CartV \<lparr>id_c = str ''c1'', items_c = [], total_c = 0, createdAt = 1\<rparr> \<and>
   checkout 2 3 4 5 (str ''c1'') (run (\<lambda>x. x) [Clear 1 (str ''c1'')] init_state) = (Fail EmptyCart, (run (\<lambda>x. x) [Clear 1 (str ''c1'')] init_state)) \<and>
   carts_get (run (\<lambda>x. x) [Clear 1 (str ''c1'')] init_state) (str ''c2'') = Undefined \<and>
   checkout 2 3 4 5 (str ''c2'') (run (\<lambda>x. x) [Clear 1 (str ''c1'')] init_state) =
     (Fail EmptyCart, carts_set (str ''c2'') \<lparr>id_c = str ''c2'', items_c = [], total_c = 0, createdAt = 2\<rparr> (run (\<lambda>x. x) [Clear 1 (str ''c1'')] init_state))"
proof -
  have h1: "carts_get (run (\<lambda>x. x) [Clear 1 (str ''c1'')] init_state) (str ''c1'') = CartV \<lparr>id_c = str ''c1'', items_c = [], total_c = 0, createdAt = 1\<rparr>" by (simp add: eval_defs)
  have h2: "carts_get (run (\<lambda>x. x) [Clear 1 (str ''c1'')] init_state) (str ''c2'') = Undefined" by (simp add: eval_defs)
  have e: "items_c \<lparr>id_c = str ''c1'', items_c = [], total_c = 0, createdAt = 1\<rparr> = []" by simp
  note A = checkout_of_empty_cart[where s="(run (\<lambda>x. x) [Clear 1 (str ''c1'')] init_state)" and cartId="str ''c1''" and c="\<lparr>id_c = str ''c1'', items_c = [], total_c = 0, createdAt = 1\<rparr>"
      and ?t1.0=2 and ?t2.0=3 and ?t3.0=4 and ?t4.0=5]
  note B = checkout_of_empty_cart[where s="(run (\<lambda>x. x) [Clear 1 (str ''c1'')] init_state)" and cartId="str ''c2''" and c="\<lparr>id_c = str ''c1'', items_c = [], total_c = 0, createdAt = 1\<rparr>"
      and ?t1.0=2 and ?t2.0=3 and ?t3.0=4 and ?t4.0=5]
  have 1: "checkout 2 3 4 5 (str ''c1'') (run (\<lambda>x. x) [Clear 1 (str ''c1'')] init_state) = (Fail EmptyCart, (run (\<lambda>x. x) [Clear 1 (str ''c1'')] init_state))"
    using A h1 e by blast
  have 2: "checkout 2 3 4 5 (str ''c2'') (run (\<lambda>x. x) [Clear 1 (str ''c1'')] init_state) =
     (Fail EmptyCart, carts_set (str ''c2'') \<lparr>id_c = str ''c2'', items_c = [], total_c = 0, createdAt = 2\<rparr> (run (\<lambda>x. x) [Clear 1 (str ''c1'')] init_state))"
    using B h2 by simp
  from h1 h2 1 2 show ?thesis by blast
qed

theorem checkout_of_empty_cart_counterexample:
  "carts_get init_state (str ''c1'') = Undefined \<and>
   fst (getCart 1 (str ''c1'') init_state) = CartV \<lparr>id_c = str ''c1'', items_c = [], total_c = 0, createdAt = 1\<rparr> \<and>
   fst (checkout 1 2 3 4 (str ''c1'') init_state) = Fail EmptyCart \<and>
   carts_get (snd (checkout 1 2 3 4 (str ''c1'') init_state)) (str ''c1'')
     = CartV \<lparr>id_c = str ''c1'', items_c = [], total_c = 0, createdAt = 1\<rparr> \<and>
   snd (checkout 1 2 3 4 (str ''c1'') init_state) \<noteq> init_state"
proof -
  have a: "carts_get init_state (str ''c1'') = Undefined" by (simp add: eval_defs)
  have b: "fst (getCart 1 (str ''c1'') init_state) = CartV \<lparr>id_c = str ''c1'', items_c = [], total_c = 0, createdAt = 1\<rparr>"
    by (simp add: eval_defs)
  have c: "fst (checkout 1 2 3 4 (str ''c1'') init_state) = Fail EmptyCart"
    by (simp add: eval_defs EmptyCart_def)
  have d: "carts_get (snd (checkout 1 2 3 4 (str ''c1'') init_state)) (str ''c1'')
     = CartV \<lparr>id_c = str ''c1'', items_c = [], total_c = 0, createdAt = 1\<rparr>"
    by (simp add: eval_defs)
  have "snd (checkout 1 2 3 4 (str ''c1'') init_state) \<noteq> init_state"
    using a d by auto
  with a b c d show ?thesis by blast
qed


text \<open>
  Claim C5, as amended. When the normalized form of a tag is not a key of the catalog, a
  scan leaves the state as it was, and it answers \<open>UnknownProduct\<close>, status 404, when
  the tag is not the empty string. The empty string is stopped before the catalog is
  consulted, by the test of line 68, and the answer is \<open>InvalidInput\<close>, status 400.
  The claim as stated fails for the empty tag.
\<close>

theorem scan_of_unknown_tag:
  "products s (normalizeTag U tg) = None \<Longrightarrow>
     (tg \<noteq> [] \<longrightarrow> scan U t1 t2 (JStr tg) cart_id s = (Fail UnknownProduct, s)) \<and>
     (tg = [] \<longrightarrow> scan U t1 t2 (JStr tg) cart_id s = (Fail InvalidInput, s)) \<and>
     status UnknownProduct = 404 \<and> status InvalidInput = 400"
  by (simp add: scan_unknown scan_falsy UnknownProduct_def InvalidInput_def)

theorem scan_of_unknown_tag_witness:
  "products init_state (normalizeTag (\<lambda>x. x) (str ''ZZZZZZZZ'')) = None \<and> str ''ZZZZZZZZ'' \<noteq> [] \<and>
   scan (\<lambda>x. x) 1 2 (JStr (str ''ZZZZZZZZ'')) (Some (str ''c1'')) init_state
     = (Fail UnknownProduct, init_state) \<and>
   status UnknownProduct = 404"
proof -
  have h: "products init_state (normalizeTag (\<lambda>x. x) (str ''ZZZZZZZZ'')) = None"
    by (simp add: eval_defs)
  have ne: "str ''ZZZZZZZZ'' \<noteq> []" by (simp add: str_def)
  note T = scan_of_unknown_tag[OF h, where ?t1.0=1 and ?t2.0=2 and cart_id="Some (str ''c1'')"]
  from T h ne show ?thesis by blast
qed

theorem scan_of_unknown_tag_counterexample:
  "products init_state (normalizeTag (\<lambda>x. x) []) = None \<and>
   fst (scan (\<lambda>x. x) 1 2 (JStr []) (Some (str ''c1'')) init_state)
     = Fail \<lparr>status = 400, error = ''tag_id is required''\<rparr> \<and>
   fst (scan (\<lambda>x. x) 1 2 (JStr []) (Some (str ''c1'')) init_state) \<noteq> Fail UnknownProduct"
  by (simp add: eval_defs UnknownProduct_def)


text \<open>
  Claim C6, as amended. The normalized tag is the upper-cased tag with every white-space
  code unit removed; it holds no white space and no letter a to z, and for an ASCII tag
  it is the tag with a to z moved to A to Z and the six ASCII white-space characters
  removed. A scan answers \<open>InvalidInput\<close> (status 400) exactly when \<^verbatim>\<open>tag_id\<close> is
  absent or falsy: \<^verbatim>\<open>null\<close>, \<^verbatim>\<open>false\<close>, 0 or the empty string; a truthy \<^verbatim>\<open>tag_id\<close> that
  is not a string makes the handler throw. A string that is not empty but whose normalized
  form is empty is answered \<open>UnknownProduct\<close> (status 404) in every reached state. For
  a string that is not empty, the normalized form is the key looked up in the catalog and
  the identity of the item: when the id has a cart, the scan stores the cart of its
  response under the id; it removes exactly when an item of the cart has the normalized
  tag as \<^verbatim>\<open>tag_id\<close>, and then the first such item is the one that goes; otherwise it
  appends an item that carries the normalized tag. The claim as stated (400 exactly for a
  missing or empty \<^verbatim>\<open>tag_id\<close>) fails for \<^verbatim>\<open>tag_id\<close> 0, \<^verbatim>\<open>false\<close> and \<^verbatim>\<open>null\<close>.
\<close>

theorem normalized_tag_is_the_key:
  "normalizeTag U tg = filter (\<lambda>c. \<not> is_space c) (toUpperCase U tg) \<and>
   (\<forall>c\<in>set (normalizeTag U tg). \<not> is_space c \<and> \<not> (97 \<le> c \<and> c \<le> 122)) \<and>
   ((\<forall>c\<in>set tg. c < 128) \<longrightarrow>
      normalizeTag U tg = filter (\<lambda>c. \<not> is_space c) (map upper_unit tg)) \<and>
   ((fst (scan U t1 t2 tag cart_id s) = Fail InvalidInput) =
      (tag = JAbsent \<or> tag = JNull \<or> tag = JBool False \<or> tag = JNum 0 \<or> tag = JStr [])) \<and>
   (json_truthy tag \<and> (\<forall>x. tag \<noteq> JStr x) \<longrightarrow> scan U t1 t2 tag cart_id s = (Throws, s)) \<and>
   status InvalidInput = 400 \<and> status UnknownProduct = 404 \<and>
   (tg \<noteq> [] \<and> normalizeTag U tg = [] \<longrightarrow>
      scan U t1 t2 (JStr tg) cart_id (run U rs init_state)
        = (Fail UnknownProduct, run U rs init_state)) \<and>
   (tg \<noteq> [] \<longrightarrow>
      (case products s (normalizeTag U tg) of
         None \<Rightarrow> scan U t1 t2 (JStr tg) cart_id s = (Fail UnknownProduct, s)
       | Some p \<Rightarrow>
           (\<forall>c. fst (getCart t1 (case cart_id of None \<Rightarrow> str ''default'' | Some c \<Rightarrow> c) s) = CartV c \<longrightarrow>
             (\<exists>r. scan U t1 t2 (JStr tg) cart_id s =
                    (Ok r, carts_set (case cart_id of None \<Rightarrow> str ''default'' | Some c \<Rightarrow> c)
                             (resp_cart r) s) \<and>
                  carts_get (snd (scan U t1 t2 (JStr tg) cart_id s))
                    (case cart_id of None \<Rightarrow> str ''default'' | Some c \<Rightarrow> c) = CartV (resp_cart r) \<and>
                  resp_product r = name p \<and>
                  (action r = Removed) = (normalizeTag U tg \<in> tag_id ` set (items_c c)) \<and>
                  (action r = Added \<longrightarrow>
                     items_c (resp_cart r) = items_c c @
                       [\<lparr>tag_id = normalizeTag U tg, name_i = name p, price_i = price p,
                         category_i = category p, scannedAt = t2\<rparr>]) \<and>
                  (action r = Removed \<longrightarrow>
                     items_c (resp_cart r) =
                       takeWhile (\<lambda>it. tag_id it \<noteq> normalizeTag U tg) (items_c c) @
                       tl (dropWhile (\<lambda>it. tag_id it \<noteq> normalizeTag U tg) (items_c c)))))))"
proof -
  have a: "normalizeTag U tg = filter (\<lambda>c. \<not> is_space c) (toUpperCase U tg)"
    by (rule normalizeTag_filter)
  have b: "\<forall>c\<in>set (normalizeTag U tg). \<not> is_space c \<and> \<not> (97 \<le> c \<and> c \<le> 122)"
    unfolding a using toUpperCase_no_lower[of U tg] by auto
  have c: "(\<forall>c\<in>set tg. c < 128) \<longrightarrow>
      normalizeTag U tg = filter (\<lambda>c. \<not> is_space c) (map upper_unit tg)"
    unfolding a by (simp add: toUpperCase_ascii)
  have d: "(fst (scan U t1 t2 tag cart_id s) = Fail InvalidInput) =
      (tag = JAbsent \<or> tag = JNull \<or> tag = JBool False \<or> tag = JNum 0 \<or> tag = JStr [])"
    unfolding scan_invalid_iff by (rule json_falsy_iff)
  have e: "json_truthy tag \<and> (\<forall>x. tag \<noteq> JStr x) \<longrightarrow> scan U t1 t2 tag cart_id s = (Throws, s)"
    using scan_not_a_string by blast
  have f: "status InvalidInput = 400 \<and> status UnknownProduct = 404"
    by (simp add: InvalidInput_def UnknownProduct_def)
  have g: "tg \<noteq> [] \<and> normalizeTag U tg = [] \<longrightarrow>
      scan U t1 t2 (JStr tg) cart_id (run U rs init_state)
        = (Fail UnknownProduct, run U rs init_state)"
    by (auto simp: scan_unknown products_run init_state_def catalog_no_empty_key)
  have h: "tg \<noteq> [] \<longrightarrow>
      (case products s (normalizeTag U tg) of
         None \<Rightarrow> scan U t1 t2 (JStr tg) cart_id s = (Fail UnknownProduct, s)
       | Some p \<Rightarrow>
           (\<forall>c. fst (getCart t1 (case cart_id of None \<Rightarrow> str ''default'' | Some c \<Rightarrow> c) s) = CartV c \<longrightarrow>
             (\<exists>r. scan U t1 t2 (JStr tg) cart_id s =
                    (Ok r, carts_set (case cart_id of None \<Rightarrow> str ''default'' | Some c \<Rightarrow> c)
                             (resp_cart r) s) \<and>
                  carts_get (snd (scan U t1 t2 (JStr tg) cart_id s))
                    (case cart_id of None \<Rightarrow> str ''default'' | Some c \<Rightarrow> c) = CartV (resp_cart r) \<and>
                  resp_product r = name p \<and>
                  (action r = Removed) = (normalizeTag U tg \<in> tag_id ` set (items_c c)) \<and>
                  (action r = Added \<longrightarrow>
                     items_c (resp_cart r) = items_c c @
                       [\<lparr>tag_id = normalizeTag U tg, name_i = name p, price_i = price p,
                         category_i = category p, scannedAt = t2\<rparr>]) \<and>
                  (action r = Removed \<longrightarrow>
                     items_c (resp_cart r) =
                       takeWhile (\<lambda>it. tag_id it \<noteq> normalizeTag U tg) (items_c c) @
                       tl (dropWhile (\<lambda>it. tag_id it \<noteq> normalizeTag U tg) (items_c c))))))"
  proof (cases "products s (normalizeTag U tg)")
    case None
    then show ?thesis by (simp add: scan_unknown)
  next
    case (Some p)
    show ?thesis
      unfolding Some option.case
      using scan_found_response[where tg=tg and s=s and p=p and ?t1.0=t1 and ?t2.0=t2
          and cart_id=cart_id and U=U, OF _ Some]
      by blast
  qed
  from a b c d e f[THEN conjunct1] f[THEN conjunct2] g h show ?thesis by (intro conjI)
qed

theorem normalized_tag_is_the_key_witness:
  "normalizeTag (\<lambda>x. x) (str '' a1 b2\<newline>c3d4 '') = str ''A1B2C3D4'' \<and>
   [32, 9] \<noteq> ([] :: jsstring) \<and> normalizeTag (\<lambda>x. x) [32, 9] = [] \<and>
   scan (\<lambda>x. x) 1 2 (JStr [32, 9]) (Some (str ''c1'')) (run (\<lambda>x. x) [] init_state)
     = (Fail UnknownProduct, run (\<lambda>x. x) [] init_state) \<and>
   fst (scan (\<lambda>x. x) 1 2 (JStr [32, 9]) (Some (str ''c1'')) init_state) \<noteq> Fail InvalidInput \<and>
   fst (scan (\<lambda>x. x) 1 2 (JStr []) (Some (str ''c1'')) init_state) = Fail InvalidInput \<and>
   fst (scan (\<lambda>x. x) 1 2 JAbsent (Some (str ''c1'')) init_state) = Fail InvalidInput \<and>
   scan (\<lambda>x. x) 1 2 (JBool True) (Some (str ''c1'')) init_state = (Throws, init_state) \<and>
   (\<exists>r. scan (\<lambda>x. x) 1 2 (JStr (str ''a1b2c3d4'')) (Some (str ''c1'')) init_state
           = (Ok r, carts_set (str ''c1'') (resp_cart r) init_state) \<and>
        resp_product r = str ''Milk (1L)'' \<and> action r = Added \<and>
        items_c (resp_cart r) = [\<lparr>tag_id = str ''A1B2C3D4'', name_i = str ''Milk (1L)'', price_i = 40, category_i = str ''Dairy'', scannedAt = 2\<rparr>])"
proof -
  have asc: "\<forall>c\<in>set (str '' a1 b2\<newline>c3d4 ''). c < 128" by (simp add: str_def)
  have a: "normalizeTag (\<lambda>x. x) (str '' a1 b2\<newline>c3d4 '') = str ''A1B2C3D4''"
    using normalized_tag_is_the_key[where U="(\<lambda>x. x)" and tg="(str '' a1 b2\<newline>c3d4 '')", THEN conjunct2, THEN conjunct2, THEN conjunct1] asc
    by (simp add: str_def upper_unit_def is_space_def)
  have ne: "[32, 9] \<noteq> ([] :: jsstring)" by simp
  have ws: "\<forall>c\<in>set ([32, 9] :: jsstring). c < 128" by simp
  note T = normalized_tag_is_the_key[where U="(\<lambda>x. x)" and tg="[32, 9]" and ?t1.0=1 and ?t2.0=2
      and cart_id="Some (str ''c1'')" and s=init_state and rs="[]"]
  have b: "normalizeTag (\<lambda>x. x) [32, 9] = []"
    using T[where tag=JAbsent, THEN conjunct2, THEN conjunct2, THEN conjunct1] ws
    by (simp add: upper_unit_def is_space_def)
  have 1: "scan (\<lambda>x. x) 1 2 (JStr [32, 9]) (Some (str ''c1'')) (run (\<lambda>x. x) [] init_state)
     = (Fail UnknownProduct, run (\<lambda>x. x) [] init_state)"
    using T[where tag=JAbsent, THEN conjunct2, THEN conjunct2, THEN conjunct2, THEN conjunct2, THEN conjunct2, THEN conjunct2, THEN conjunct2, THEN conjunct1] ne b by blast
  have 2: "fst (scan (\<lambda>x. x) 1 2 (JStr [32, 9]) (Some (str ''c1'')) init_state) \<noteq> Fail InvalidInput"
    unfolding T[where tag="JStr [32, 9]", THEN conjunct2, THEN conjunct2, THEN conjunct2, THEN conjunct1] by simp
  have 3: "fst (scan (\<lambda>x. x) 1 2 (JStr []) (Some (str ''c1'')) init_state) = Fail InvalidInput"
    unfolding T[where tag="JStr []", THEN conjunct2, THEN conjunct2, THEN conjunct2, THEN conjunct1] by simp
  have 4: "fst (scan (\<lambda>x. x) 1 2 JAbsent (Some (str ''c1'')) init_state) = Fail InvalidInput"
    unfolding T[where tag=JAbsent, THEN conjunct2, THEN conjunct2, THEN conjunct2, THEN conjunct1] by simp
  have 5: "scan (\<lambda>x. x) 1 2 (JBool True) (Some (str ''c1'')) init_state = (Throws, init_state)"
    using T[where tag="JBool True", THEN conjunct2, THEN conjunct2, THEN conjunct2, THEN conjunct2, THEN conjunct1] by simp
  have p: "products init_state (normalizeTag (\<lambda>x. x) (str ''a1b2c3d4'')) = Some \<lparr>name = str ''Milk (1L)'', price = 40, category = str ''Dairy''\<rparr>"
    by (simp add: eval_defs)
  have nt: "normalizeTag (\<lambda>x. x) (str ''a1b2c3d4'') = str ''A1B2C3D4''"
    by (simp add: eval_defs)
  have g: "fst (getCart 1 (str ''c1'') init_state)
      = CartV \<lparr>id_c = str ''c1'', items_c = [], total_c = 0, createdAt = 1\<rparr>"
    by (simp add: eval_defs)
  have ne2: "str ''a1b2c3d4'' \<noteq> []" by (simp add: str_def)
  note H = normalized_tag_is_the_key[where U="(\<lambda>x. x)" and tg="str ''a1b2c3d4''" and ?t1.0=1
      and ?t2.0=2 and cart_id="Some (str ''c1'')" and s=init_state and rs="[]" and tag=JAbsent,
      THEN conjunct2, THEN conjunct2, THEN conjunct2, THEN conjunct2, THEN conjunct2, THEN conjunct2, THEN conjunct2, THEN conjunct2, rule_format, OF ne2, unfolded p option.case, rule_format, OF g]
  from H obtain r where r:
    "scan (\<lambda>x. x) 1 2 (JStr (str ''a1b2c3d4'')) (Some (str ''c1'')) init_state
       = (Ok r, carts_set (str ''c1'') (resp_cart r) init_state)"
    "resp_product r = name \<lparr>name = str ''Milk (1L)'', price = 40, category = str ''Dairy''\<rparr>"
    "(action r = Removed) = (normalizeTag (\<lambda>x. x) (str ''a1b2c3d4'') \<in> tag_id ` set (items_c \<lparr>id_c = str ''c1'', items_c = [], total_c = 0, createdAt = 1\<rparr>))"
    "action r = Added \<longrightarrow> items_c (resp_cart r) = items_c \<lparr>id_c = str ''c1'', items_c = [], total_c = 0, createdAt = 1\<rparr> @
        [\<lparr>tag_id = normalizeTag (\<lambda>x. x) (str ''a1b2c3d4''), name_i = name \<lparr>name = str ''Milk (1L)'', price = 40, category = str ''Dairy''\<rparr>,
          price_i = price \<lparr>name = str ''Milk (1L)'', price = 40, category = str ''Dairy''\<rparr>, category_i = category \<lparr>name = str ''Milk (1L)'', price = 40, category = str ''Dairy''\<rparr>, scannedAt = 2\<rparr>]"
    by blast
  have added: "action r = Added" using r(3) by (cases "action r") simp_all
  have 6: "\<exists>r. scan (\<lambda>x. x) 1 2 (JStr (str ''a1b2c3d4'')) (Some (str ''c1'')) init_state
           = (Ok r, carts_set (str ''c1'') (resp_cart r) init_state) \<and>
        resp_product r = str ''Milk (1L)'' \<and> action r = Added \<and>
        items_c (resp_cart r) = [\<lparr>tag_id = str ''A1B2C3D4'', name_i = str ''Milk (1L)'', price_i = 40, category_i = str ''Dairy'', scannedAt = 2\<rparr>]"
    using r(1,2,4) added by (intro exI[of _ r]) (simp add: nt)
  from a ne b 1 2 3 4 5 6 show ?thesis by blast
qed

theorem normalized_tag_is_the_key_counterexample:
  "fst (scan (\<lambda>x. x) 1 2 (JNum 0) (Some (str ''c1'')) init_state) = Fail InvalidInput \<and>
   JNum 0 \<noteq> JAbsent \<and> JNum 0 \<noteq> JStr [] \<and>
   fst (scan (\<lambda>x. x) 1 2 (JBool False) (Some (str ''c1'')) init_state) = Fail InvalidInput \<and>
   JBool False \<noteq> JAbsent \<and> JBool False \<noteq> JStr [] \<and>
   fst (scan (\<lambda>x. x) 1 2 JNull (Some (str ''c1'')) init_state) = Fail InvalidInput"
  by (simp add: scan_def InvalidInput_def)


text \<open>
  Claim C7. For a tag taken from the path of \<^verbatim>\<open>GET /api/simulate/:tagId\<close>, the
  simulate handler gives the response and the next state of a scan of that tag with
  \<^verbatim>\<open>cart_id\<close> \<^verbatim>\<open>"default"\<close> (given, or left out of the body), and it answers 404 for a
  tag unknown to the catalog. A path parameter of the router is never the empty string,
  which is the hypothesis.
\<close>

theorem simulate_is_scan_on_default:
  "tagId \<noteq> [] \<Longrightarrow>
     simulate U t1 t2 tagId s = scan U t1 t2 (JStr tagId) (Some (str ''default'')) s \<and>
     simulate U t1 t2 tagId s = scan U t1 t2 (JStr tagId) None s \<and>
     (products s (normalizeTag U tagId) = None \<longrightarrow>
        simulate U t1 t2 tagId s = (Fail UnknownProduct, s) \<and> status UnknownProduct = 404)"
proof (cases "products s (normalizeTag U tagId)")
  case None
  assume "tagId \<noteq> []"
  with None show ?thesis
    by (simp add: simulate_unknown scan_unknown) (simp add: UnknownProduct_def)
next
  case (Some p)
  assume ne: "tagId \<noteq> []"
  show ?thesis
  proof (cases "\<exists>c. fst (getCart t1 (str ''default'') s) = CartV c")
    case True
    then obtain c where c: "fst (getCart t1 (str ''default'') s) = CartV c" by blast
    show ?thesis
      using simulate_toggle[OF Some c, of t2] scan_toggle[OF ne Some, of t1 "Some (str ''default'')" c t2]
        scan_toggle[OF ne Some, of t1 None c t2] c Some
      by simp
  next
    case False
    then have o: "carts_get s (str ''default'') = Other True" using getCart_not_cart by blast
    show ?thesis
      using simulate_throws[OF Some o, of t1 t2] scan_throws[OF ne Some, of "Some (str ''default'')" t1 t2]
        scan_throws[OF ne Some, of None t1 t2] o Some
      by simp
  qed
qed

theorem simulate_is_scan_on_default_witness:
  "str ''a1b2c3d4'' \<noteq> [] \<and>
   simulate (\<lambda>x. x) 1 2 (str ''a1b2c3d4'') init_state
     = scan (\<lambda>x. x) 1 2 (JStr (str ''a1b2c3d4'')) (Some (str ''default'')) init_state \<and>
   simulate (\<lambda>x. x) 1 2 (str ''a1b2c3d4'') init_state
     = scan (\<lambda>x. x) 1 2 (JStr (str ''a1b2c3d4'')) None init_state \<and>
   fst (simulate (\<lambda>x. x) 1 2 (str ''a1b2c3d4'') init_state) = Ok \<lparr>action = Added, resp_product = str ''Milk (1L)'', resp_price = 40, cart_total = 40, cart_items = 1, resp_cart = \<lparr>id_c = str ''default'', items_c = [\<lparr>tag_id = str ''A1B2C3D4'', name_i = str ''Milk (1L)'', price_i = 40, category_i = str ''Dairy'', scannedAt = 2\<rparr>], total_c = 40, createdAt = 1\<rparr>\<rparr> \<and>
   str ''ZZZZZZZZ'' \<noteq> [] \<and> products init_state (normalizeTag (\<lambda>x. x) (str ''ZZZZZZZZ'')) = None \<and>
   simulate (\<lambda>x. x) 1 2 (str ''ZZZZZZZZ'') init_state = (Fail UnknownProduct, init_state)"
proof -
  have a: "str ''a1b2c3d4'' \<noteq> []" and b: "str ''ZZZZZZZZ'' \<noteq> []" by (simp_all add: str_def)
  have h: "products init_state (normalizeTag (\<lambda>x. x) (str ''ZZZZZZZZ'')) = None"
    by (simp add: eval_defs)
  have r: "fst (simulate (\<lambda>x. x) 1 2 (str ''a1b2c3d4'') init_state) = Ok \<lparr>action = Added, resp_product = str ''Milk (1L)'', resp_price = 40, cart_total = 40, cart_items = 1, resp_cart = \<lparr>id_c = str ''default'', items_c = [\<lparr>tag_id = str ''A1B2C3D4'', name_i = str ''Milk (1L)'', price_i = 40, category_i = str ''Dairy'', scannedAt = 2\<rparr>], total_c = 40, createdAt = 1\<rparr>\<rparr>"
    by (simp add: eval_defs)
  note A = simulate_is_scan_on_default[OF a, where ?t1.0=1 and ?t2.0=2 and s=init_state and U="(\<lambda>x. x)"]
  note B = simulate_is_scan_on_default[OF b, where ?t1.0=1 and ?t2.0=2 and s=init_state and U="(\<lambda>x. x)"]
  have 1: "simulate (\<lambda>x. x) 1 2 (str ''a1b2c3d4'') init_state
     = scan (\<lambda>x. x) 1 2 (JStr (str ''a1b2c3d4'')) (Some (str ''default'')) init_state"
    using A by blast
  have 2: "simulate (\<lambda>x. x) 1 2 (str ''a1b2c3d4'') init_state
     = scan (\<lambda>x. x) 1 2 (JStr (str ''a1b2c3d4'')) None init_state"
    using A by blast
  have 3: "simulate (\<lambda>x. x) 1 2 (str ''ZZZZZZZZ'') init_state = (Fail UnknownProduct, init_state)"
    using B h by blast
  from a b h r 1 2 3 show ?thesis by blast
qed


text \<open>
  Claim C8. Whatever the state and the id, clear assigns to \<^verbatim>\<open>carts[cartId]\<close> a new cart
  with no items, total 0 and the instant of the request as \<^verbatim>\<open>createdAt\<close>; after it
  \<^verbatim>\<open>carts[cartId]\<close> is that cart, which is also the answer, and the own property of
  every other key is as before. It has no error response and does not throw. On an id for
  which \<^verbatim>\<open>carts[cartId]\<close> is not truthy (no cart is present), its result and next state
  are those of \<^verbatim>\<open>getCart\<close>, which creates the empty cart.
\<close>

theorem clear_replaces_entry:
  "clear t cartId s =
     (CartV \<lparr>id_c = cartId, items_c = [], total_c = 0, createdAt = t\<rparr>,
      carts_set cartId \<lparr>id_c = cartId, items_c = [], total_c = 0, createdAt = t\<rparr> s) \<and>
   carts_get (snd (clear t cartId s)) cartId
     = CartV \<lparr>id_c = cartId, items_c = [], total_c = 0, createdAt = t\<rparr> \<and>
   (\<forall>key. key \<noteq> cartId \<longrightarrow> carts (snd (clear t cartId s)) key = carts s key) \<and>
   (\<not> truthy (carts_get s cartId) \<longrightarrow> clear t cartId s = getCart t cartId s)"
  by (simp add: clear_def Let_def carts_get_set_same carts_set_own_other getCart_falsy empty_cart_def)

theorem clear_replaces_entry_witness:
  "\<not> truthy (carts_get init_state (str ''c9'')) \<and>
   clear 7 (str ''c9'') init_state = getCart 7 (str ''c9'') init_state \<and>
   fst (clear 7 (str ''c9'') init_state) = CartV \<lparr>id_c = str ''c9'', items_c = [], total_c = 0, createdAt = 7\<rparr> \<and>
   str ''c1'' \<noteq> str ''c9'' \<and>
   carts (snd (clear 7 (str ''c9'') init_state)) (str ''c1'') = carts init_state (str ''c1'') \<and>
   carts_get (snd (clear 9 (str ''c1'') (run (\<lambda>x. x) [Scan 1 2 (JStr (str ''a1b2c3d4'')) (Some (str ''c1''))] init_state))) (str ''c1'')
     = CartV \<lparr>id_c = str ''c1'', items_c = [], total_c = 0, createdAt = 9\<rparr> \<and>
   carts_get (snd (clear 3 (str ''__proto__'') init_state)) (str ''__proto__'')
     = CartV \<lparr>id_c = str ''__proto__'', items_c = [], total_c = 0, createdAt = 3\<rparr>"
proof -
  have h: "\<not> truthy (carts_get init_state (str ''c9''))" by (simp add: eval_defs)
  have n: "str ''c1'' \<noteq> str ''c9''" by (simp add: str_def)
  note A = clear_replaces_entry[where t=7 and cartId="str ''c9''" and s=init_state]
  note B = clear_replaces_entry[where t=9 and cartId="str ''c1''"
      and s="run (\<lambda>x. x) [Scan 1 2 (JStr (str ''a1b2c3d4'')) (Some (str ''c1''))] init_state"]
  note C = clear_replaces_entry[where t=3 and cartId="str ''__proto__''" and s=init_state]
  have 1: "clear 7 (str ''c9'') init_state = getCart 7 (str ''c9'') init_state"
    using A h by blast
  have 2: "fst (clear 7 (str ''c9'') init_state) = CartV \<lparr>id_c = str ''c9'', items_c = [], total_c = 0, createdAt = 7\<rparr>"
    using A by simp
  have 3: "carts (snd (clear 7 (str ''c9'') init_state)) (str ''c1'') = carts init_state (str ''c1'')"
    using A n by blast
  have 4: "carts_get (snd (clear 9 (str ''c1'') (run (\<lambda>x. x) [Scan 1 2 (JStr (str ''a1b2c3d4'')) (Some (str ''c1''))] init_state))) (str ''c1'')
     = CartV \<lparr>id_c = str ''c1'', items_c = [], total_c = 0, createdAt = 9\<rparr>"
    using B by blast
  have 5: "carts_get (snd (clear 3 (str ''__proto__'') init_state)) (str ''__proto__'')
     = CartV \<lparr>id_c = str ''__proto__'', items_c = [], total_c = 0, createdAt = 3\<rparr>"
    using C by blast
  from h n 1 2 3 4 5 show ?thesis by blast
qed





end
